theory Spec2Isabelle
  imports Main
begin


section \<open>Python values and exceptions\<close>

text \<open>
  The Knative backend of pywren-ibm-cloud is Python. Strings are lists of characters whose
  code points lie below 256, integers are unbounded, and every exception the modelled code
  can raise is a value of \<open>exn\<close>; a computation that may raise returns \<open>exn + 'a\<close>
  with \<open>Inl\<close> carrying the exception.
\<close>

datatype exn =
    ValueError
  | KeyError
  | IndexError
  | TypeError
  | AttributeError
  | UnboundLocalError
  | ApiException nat
  | PyException string

subsection \<open>String primitives used by the service-name codec\<close>

fun startswith :: "string \<Rightarrow> string \<Rightarrow> bool" where
  "startswith [] s = True"
| "startswith (p # ps) [] = False"
| "startswith (p # ps) (c # cs) = (p = c \<and> startswith ps cs)"

text \<open>\<open>s.replace('', new, count)\<close>: the new text goes before each character and at the end.\<close>

fun py_replace_empty :: "string \<Rightarrow> int \<Rightarrow> string \<Rightarrow> string" where
  "py_replace_empty new count [] = (if count = 0 then [] else new)"
| "py_replace_empty new count (c # cs) =
     (if count = 0 then c # cs else new @ c # py_replace_empty new (count - 1) cs)"

text \<open>
  \<open>s.replace(old, new, count)\<close>: occurrences are found left to right without overlap;
  a negative count replaces all of them, a count of zero none.
\<close>

function py_replace :: "string \<Rightarrow> string \<Rightarrow> int \<Rightarrow> string \<Rightarrow> string" where
  "py_replace old new count s =
     (if old = [] then py_replace_empty new count s
      else if count = 0 \<or> s = [] then s
      else if startswith old s
           then new @ py_replace old new (count - 1) (drop (length old) s)
           else hd s # py_replace old new count (tl s))"
  by pat_completeness auto
termination
  by (relation "measure (\<lambda>(old, new, count, s). length s)") auto

text \<open>
  The leftmost occurrence of a separator: the text before it and the text after it.
\<close>

fun split_first :: "string \<Rightarrow> string \<Rightarrow> (string \<times> string) option" where
  "split_first sep [] = (if sep = [] then Some ([], []) else None)"
| "split_first sep (c # cs) =
     (if startswith sep (c # cs) then Some ([], drop (length sep) (c # cs))
      else map_option (\<lambda>(a, b). (c # a, b)) (split_first sep cs))"

text \<open>
  \<open>s.rsplit(sep, 1)\<close> cuts at the rightmost occurrence of the separator, which is the
  leftmost occurrence of the reversed separator in the reversed string. An empty separator
  raises ValueError.
\<close>

definition py_rsplit1 :: "string \<Rightarrow> string \<Rightarrow> exn + string list" where
  "py_rsplit1 sep s =
     (if sep = [] then Inl ValueError
      else case split_first (rev sep) (rev s) of
             None \<Rightarrow> Inr [s]
           | Some (a, b) \<Rightarrow> Inr [rev b, rev a])"

subsection \<open>Integers as text\<close>

definition digit_char :: "nat \<Rightarrow> char" where
  "digit_char d = char_of (48 + d)"

function digits_of :: "nat \<Rightarrow> string" where
  "digits_of n = (if n < 10 then [digit_char n] else digits_of (n div 10) @ [digit_char (n mod 10)])"
  by pat_completeness auto
termination
  by (relation "measure id") auto

text \<open>\<open>'{}'.format(i)\<close> for an integer.\<close>

definition py_str_int :: "int \<Rightarrow> string" where
  "py_str_int i = (if i < 0 then CHR ''-'' # digits_of (nat (- i)) else digits_of (nat i))"

definition is_digit :: "char \<Rightarrow> bool" where
  "is_digit c = ((48::nat) \<le> of_char c \<and> (of_char c :: nat) \<le> 57)"

text \<open>The characters \<open>int()\<close> skips around a literal.\<close>

definition is_space :: "char \<Rightarrow> bool" where
  "is_space c = ((of_char c :: nat) \<in> {9, 10, 11, 12, 13, 32, 133, 160})"

definition py_strip :: "string \<Rightarrow> string" where
  "py_strip s = rev (dropWhile is_space (rev (dropWhile is_space s)))"

definition digit_val :: "char \<Rightarrow> nat" where
  "digit_val c = of_char c - 48"

text \<open>
  The digit part of an integer literal as Python 3.6 and later read it: decimal digits, single
  underscores allowed between two digits only.
\<close>

fun digits_ok :: "string \<Rightarrow> bool" where
  "digits_ok [] = False"
| "digits_ok [c] = is_digit c"
| "digits_ok (c # d # cs) =
     (is_digit c \<and> (if d = CHR ''_'' then digits_ok cs else digits_ok (d # cs)))"

definition digits_value :: "string \<Rightarrow> nat" where
  "digits_value s = foldl (\<lambda>acc c. 10 * acc + digit_val c) 0 (filter (\<lambda>c. c \<noteq> CHR ''_'') s)"

definition parse_digits :: "string \<Rightarrow> exn + int" where
  "parse_digits s = (if digits_ok s then Inr (int (digits_value s)) else Inl ValueError)"

text \<open>\<open>int(s)\<close> for a string: surrounding whitespace, an optional sign, then the digits.\<close>

definition py_int :: "string \<Rightarrow> exn + int" where
  "py_int s =
     (case py_strip s of
        [] \<Rightarrow> Inl ValueError
      | c # cs \<Rightarrow>
          if c = CHR ''-'' then (case parse_digits cs of Inl e \<Rightarrow> Inl e | Inr v \<Rightarrow> Inr (- v))
          else if c = CHR ''+'' then parse_digits cs
          else parse_digits (c # cs))"

section \<open>The service-name codec\<close>

text \<open>
  \<open>_format_service_name\<close>: slashes and colons of the image name become \<open>--\<close>, and the
  memory size follows after another \<open>--\<close>.
\<close>

definition format_service_name :: "string \<Rightarrow> int \<Rightarrow> string" where
  "format_service_name runtime_name runtime_memory =
     (let runtime_name = py_replace '':'' ''--'' (- 1) (py_replace ''/'' ''--'' (- 1) runtime_name)
      in runtime_name @ ''--'' @ py_str_int runtime_memory @ ''mb'')"

text \<open>
  \<open>_unformat_service_name\<close>: the name is cut at its last \<open>--\<close> (unpacking anything but
  two parts raises ValueError), the first \<open>--\<close> of the left part becomes a slash and the
  others colons, and the right part without \<open>mb\<close> is read as an integer.
\<close>

definition unformat_service_name :: "string \<Rightarrow> exn + (string \<times> int)" where
  "unformat_service_name service_name =
     (case py_rsplit1 ''--'' service_name of
        Inl e \<Rightarrow> Inl e
      | Inr [runtime_name, memory] \<Rightarrow>
          (let image_name = py_replace ''--'' ''/'' 1 runtime_name;
               image_name = py_replace ''--'' '':'' (- 1) image_name
           in case py_int (py_replace ''mb'' [] (- 1) memory) of
                Inl e \<Rightarrow> Inl e
              | Inr m \<Rightarrow> Inr (image_name, m))
      | Inr _ \<Rightarrow> Inl ValueError)"

text \<open>
  The image names the codec is built for. A dash must not stand directly before another dash,
  a slash or a colon, and the slashes and colons of the name, read left to right, are either
  none at all or one slash followed by colons only (\<open>user/name\<close>, \<open>user/name:tag\<close>).
\<close>

fun dash_free :: "string \<Rightarrow> bool" where
  "dash_free (a # b # cs) =
     ((a = CHR ''-'' \<longrightarrow> b \<noteq> CHR ''-'' \<and> b \<noteq> CHR ''/'' \<and> b \<noteq> CHR '':'') \<and> dash_free (b # cs))"
| "dash_free [a] = True"
| "dash_free [] = True"

definition separators :: "string \<Rightarrow> string" where
  "separators s = filter (\<lambda>c. c = CHR ''/'' \<or> c = CHR '':'') s"

definition image_shape :: "string \<Rightarrow> bool" where
  "image_shape s =
     (dash_free s \<and>
      (case separators s of [] \<Rightarrow> True | c # cs \<Rightarrow> c = CHR ''/'' \<and> list_all (\<lambda>x. x = CHR '':'') cs))"

text \<open>What the two replacements of \<open>_format_service_name\<close> do to one character.\<close>

definition enc_char :: "char \<Rightarrow> string" where
  "enc_char c = (if c = CHR ''/'' \<or> c = CHR '':'' then ''--'' else [c])"

definition enc_colon :: "char \<Rightarrow> string" where
  "enc_colon c = (if c = CHR '':'' then ''--'' else [c])"

text \<open>A slash read as a colon: the decoder's output compared up to the kind of separator.\<close>

definition norm_sep :: "char \<Rightarrow> char" where
  "norm_sep c = (if c = CHR ''/'' then CHR '':'' else c)"

section \<open>The cluster, the backend state and the HTTP world\<close>

text \<open>
  Python values as far as the backend looks at them: what an invocation returns is whatever
  JSON the service answered, and \<open>not v\<close> is Python's truth test.
\<close>

datatype pyval =
    PyNone
  | PyBool bool
  | PyInt int
  | PyStr string
  | PyList "pyval list"
  | PyDict "(string \<times> pyval) list"

fun truthy :: "pyval \<Rightarrow> bool" where
  "truthy PyNone = False"
| "truthy (PyBool b) = b"
| "truthy (PyInt i) = (i \<noteq> 0)"
| "truthy (PyStr s) = (s \<noteq> [])"
| "truthy (PyList l) = (l \<noteq> [])"
| "truthy (PyDict d) = (d \<noteq> [])"

text \<open>
  A Knative service as the cluster API returns it: its name, the labels found at
  \<open>spec.template.metadata.labels\<close> (\<open>None\<close> when that path is missing) and
  \<open>status.url\<close> (\<open>None\<close> when the status or the url is missing).
\<close>

record service =
  svc_name :: string
  svc_labels :: "(string \<times> string) list option"
  svc_url :: "string option"

text \<open>
  The state of a \<open>KnativeServingBackend\<close> object together with the services of its
  namespace. The cluster client is an external collaborator; its calls are modelled on the
  list of services: reading or deleting a missing service raises ApiException 404, creating
  an existing one raises ApiException 409.
\<close>

record kn_state =
  service_hosts :: "string \<rightharpoonup> string"
  endpoint :: "string option"
  host_header :: "string option"
  services :: "service list"

definition api_get :: "string \<Rightarrow> service list \<Rightarrow> exn + service" where
  "api_get name svcs =
     (case find (\<lambda>s. svc_name s = name) svcs of
        None \<Rightarrow> Inl (ApiException 404)
      | Some s \<Rightarrow> Inr s)"

definition api_delete :: "string \<Rightarrow> service list \<Rightarrow> exn + service list" where
  "api_delete name svcs =
     (if name \<in> set (map svc_name svcs) then Inr (filter (\<lambda>s. svc_name s \<noteq> name) svcs)
      else Inl (ApiException 404))"

definition api_create :: "service \<Rightarrow> service list \<Rightarrow> exn + service list" where
  "api_create svc svcs =
     (if svc_name svc \<in> set (map svc_name svcs) then Inl (ApiException 409)
      else Inr (svcs @ [svc]))"

text \<open>
  \<open>_get_service_host\<close>: the cache first; otherwise the service is read from the cluster.
  A missing service comes back as ApiException 404, for which the handler executes
  \<open>raise(log_msg)\<close> with a string, a TypeError; a service without \<open>status.url\<close>
  raises KeyError, and the handler's \<open>e.body\<close> on it is an AttributeError. On success the
  url without its first seven characters is stored in the cache.
\<close>

definition get_service_host :: "string \<Rightarrow> kn_state \<Rightarrow> (exn + string) \<times> kn_state" where
  "get_service_host service_name st =
     (case service_hosts st service_name of
        Some host \<Rightarrow> (Inr host, st)
      | None \<Rightarrow>
          (case api_get service_name (services st) of
             Inl e \<Rightarrow> (Inl TypeError, st)
           | Inr svc \<Rightarrow>
               (case svc_url svc of
                  None \<Rightarrow> (Inl AttributeError, st)
                | Some url \<Rightarrow>
                    (let service_host = drop 7 url
                     in (Inr service_host,
                         st\<lparr>service_hosts := (service_hosts st)(service_name \<mapsto> service_host)\<rparr>)))))"

section \<open>Invocation\<close>

text \<open>
  What the network does with one HTTP POST: the request or the reading of the response
  raises, or a response arrives with a status code and a body; the body is given as
  \<open>json.loads\<close> reads it, \<open>None\<close> when it is not JSON.
\<close>

datatype http_outcome =
    TransportError
  | Response nat "pyval option"

text \<open>
  The classification of one response inside the \<open>try\<close> block of
  \<open>KnativeServingBackend.invoke\<close>. Every exception raised there, including the one raised
  for status 404, is caught by the \<open>except Exception\<close> of the same block, which logs and
  falls off the end of the function: the call returns \<open>None\<close>.
\<close>

definition classify_response :: "bool \<Rightarrow> http_outcome \<Rightarrow> exn + pyval" where
  "classify_response return_result out =
     (case out of
        TransportError \<Rightarrow> Inl (PyException ''transport'')
      | Response resp_status body \<Rightarrow>
          if resp_status = 200 \<or> resp_status = 202 then
            (case body of
               None \<Rightarrow> Inl ValueError
             | Some data \<Rightarrow>
                 if return_result then Inr data
                 else (case data of
                         PyDict d \<Rightarrow> (case map_of d ''activationId'' of
                                       None \<Rightarrow> Inl KeyError
                                     | Some v \<Rightarrow> Inr v)
                       | _ \<Rightarrow> Inl TypeError))
          else if resp_status = 404 then
            Inl (PyException ''PyWren runtime is not deployed in your k8s cluster'')
          else Inr PyNone)"

definition try_request :: "bool \<Rightarrow> http_outcome \<Rightarrow> pyval" where
  "try_request return_result out =
     (case classify_response return_result out of
        Inl e \<Rightarrow> PyNone
      | Inr v \<Rightarrow> v)"

text \<open>
  \<open>KnativeServingBackend.invoke\<close>. The host lookup stands before the \<open>try\<close> block, so
  its exceptions leave the function.
\<close>

definition kn_invoke ::
  "string \<Rightarrow> int \<Rightarrow> (string \<rightharpoonup> pyval) \<Rightarrow> bool \<Rightarrow> http_outcome \<Rightarrow> kn_state
   \<Rightarrow> (exn + pyval) \<times> kn_state" where
  "kn_invoke docker_image_name memory payload return_result out st =
     (let service_name = format_service_name docker_image_name memory
      in case get_service_host service_name st of
           (Inl e, st1) \<Rightarrow> (Inl e, st1)
         | (Inr host, st1) \<Rightarrow>
             (let st2 = st1\<lparr>host_header := Some host\<rparr>;
                  st3 = (case endpoint st2 of
                           None \<Rightarrow> st2\<lparr>endpoint := Some (''http://'' @ host)\<rparr>
                         | Some ep \<Rightarrow> st2)
              in (Inr (try_request return_result out), st3)))"

text \<open>
  The retry settings of a \<open>Compute\<close> object, and \<open>random.choice\<close>, which raises
  IndexError on an empty list; the random source is the index it draws.
\<close>

record compute_config =
  invocation_retry :: bool
  retries :: int
  retry_sleeps :: "int list"

definition random_choice :: "nat \<Rightarrow> 'a list \<Rightarrow> exn + 'a" where
  "random_choice r xs = (if xs = [] then Inl IndexError else Inr (xs ! (r mod length xs)))"

text \<open>
  \<open>Compute.invoke\<close> over any backend handler. \<open>handler k\<close> is the backend's
  \<open>invoke\<close> at the call number \<open>k\<close> (counted from 0), \<open>rnd k\<close> the random draw before
  call \<open>k\<close>. The result comes with the number of handler calls made. Inside the loop the
  payload is indexed with \<open>executor_id\<close> and \<open>call_id\<close> (KeyError when missing) and
  \<open>time.sleep\<close> raises ValueError on a negative delay.
\<close>

function retry_loop ::
  "compute_config \<Rightarrow> (nat \<Rightarrow> 's \<Rightarrow> (exn + pyval) \<times> 's) \<Rightarrow> (string \<rightharpoonup> pyval) \<Rightarrow> (nat \<Rightarrow> nat)
   \<Rightarrow> pyval \<Rightarrow> nat \<Rightarrow> 's \<Rightarrow> (exn + pyval) \<times> 's \<times> nat" where
  "retry_loop cfg handler payload rnd act_id attempts st =
     (if \<not> truthy act_id \<and> invocation_retry cfg \<and> int attempts < retries cfg then
        (case random_choice (rnd attempts) (retry_sleeps cfg) of
           Inl e \<Rightarrow> (Inl e, st, attempts)
         | Inr selected_sleep \<Rightarrow>
             (case payload ''executor_id'' of
                None \<Rightarrow> (Inl KeyError, st, attempts)
              | Some exec_id \<Rightarrow>
                  (case payload ''call_id'' of
                     None \<Rightarrow> (Inl KeyError, st, attempts)
                   | Some call_id \<Rightarrow>
                       if selected_sleep < 0 then (Inl ValueError, st, attempts)
                       else (case handler attempts st of
                               (Inl e, st') \<Rightarrow> (Inl e, st', attempts + 1)
                             | (Inr a, st') \<Rightarrow>
                                 retry_loop cfg handler payload rnd a (attempts + 1) st'))))
      else (Inr act_id, st, attempts))"
  by pat_completeness auto
termination
  by (relation "measure (\<lambda>(cfg, handler, payload, rnd, act_id, attempts, st).
        nat (retries cfg - int attempts))") auto

definition compute_invoke ::
  "compute_config \<Rightarrow> (nat \<Rightarrow> 's \<Rightarrow> (exn + pyval) \<times> 's) \<Rightarrow> (string \<rightharpoonup> pyval) \<Rightarrow> (nat \<Rightarrow> nat)
   \<Rightarrow> 's \<Rightarrow> (exn + pyval) \<times> 's \<times> nat" where
  "compute_invoke cfg handler payload rnd st =
     (case handler 0 st of
        (Inl e, st') \<Rightarrow> (Inl e, st', 1)
      | (Inr act_id, st') \<Rightarrow> retry_loop cfg handler payload rnd act_id 1 st')"


text \<open>
  \<open>Compute.invoke\<close> on the Knative backend: call number \<open>k\<close> meets the network outcome
  \<open>net k\<close>.
\<close>

definition compute_invoke_knative ::
  "compute_config \<Rightarrow> string \<Rightarrow> int \<Rightarrow> (string \<rightharpoonup> pyval) \<Rightarrow> (nat \<Rightarrow> http_outcome) \<Rightarrow> (nat \<Rightarrow> nat)
   \<Rightarrow> kn_state \<Rightarrow> (exn + pyval) \<times> kn_state \<times> nat" where
  "compute_invoke_knative cfg runtime_name memory payload net rnd st =
     compute_invoke cfg (\<lambda>k. kn_invoke runtime_name memory payload False (net k)) payload rnd st"

section \<open>Listing and deleting runtimes\<close>

text \<open>
  The body of the \<open>try\<close> in the loop of \<open>list_runtimes\<close> for one service: an exception
  (a missing label path or key, a name that does not decode), nothing to append, or the pair
  to append.
\<close>

definition runtime_entry :: "string \<Rightarrow> service \<Rightarrow> exn + (string \<times> int) option" where
  "runtime_entry docker_image_name service =
     (case svc_labels service of
        None \<Rightarrow> Inl KeyError
      | Some labels \<Rightarrow>
          (case map_of labels ''type'' of
             None \<Rightarrow> Inl KeyError
           | Some t \<Rightarrow>
               if t = ''pywren-runtime'' then
                 (case unformat_service_name (svc_name service) of
                    Inl e \<Rightarrow> Inl e
                  | Inr (image_name, memory) \<Rightarrow>
                      if docker_image_name = image_name \<or> docker_image_name = ''all''
                      then Inr (Some (image_name, memory))
                      else Inr None)
               else Inr None))"

text \<open>The loop: \<open>except Exception: pass\<close> goes on with the next service.\<close>

fun list_loop :: "string \<Rightarrow> service list \<Rightarrow> (string \<times> int) list \<Rightarrow> (string \<times> int) list" where
  "list_loop docker_image_name [] runtimes = runtimes"
| "list_loop docker_image_name (service # rest) runtimes =
     (case runtime_entry docker_image_name service of
        Inl e \<Rightarrow> list_loop docker_image_name rest runtimes
      | Inr None \<Rightarrow> list_loop docker_image_name rest runtimes
      | Inr (Some r) \<Rightarrow> list_loop docker_image_name rest (runtimes @ [r]))"

definition list_runtimes :: "string \<Rightarrow> kn_state \<Rightarrow> (string \<times> int) list" where
  "list_runtimes docker_image_name st = list_loop docker_image_name (services st) []"

text \<open>
  \<open>delete_runtime\<close>: the delete call is wrapped in \<open>try ... except Exception: pass\<close>,
  so the function always returns normally; nothing but the cluster is touched.
\<close>

definition delete_runtime :: "string \<Rightarrow> int \<Rightarrow> kn_state \<Rightarrow> (exn + unit) \<times> kn_state" where
  "delete_runtime docker_image_name memory st =
     (let service_name = format_service_name docker_image_name memory
      in case api_delete service_name (services st) of
           Inl e \<Rightarrow> (Inr (), st)
         | Inr svcs \<Rightarrow> (Inr (), st\<lparr>services := svcs\<rparr>))"

fun delete_loop :: "(string \<times> int) list \<Rightarrow> kn_state \<Rightarrow> (exn + unit) \<times> kn_state" where
  "delete_loop [] st = (Inr (), st)"
| "delete_loop ((docker_image_name, memory) # rest) st =
     (case delete_runtime docker_image_name memory st of
        (Inl e, st') \<Rightarrow> (Inl e, st')
      | (Inr u, st') \<Rightarrow> delete_loop rest st')"

definition delete_all_runtimes :: "kn_state \<Rightarrow> (exn + unit) \<times> kn_state" where
  "delete_all_runtimes st = delete_loop (list_runtimes ''all'' st) st"

text \<open>
  The vocabulary of the claims: a service is owned when its template labels carry
  \<open>type: pywren-runtime\<close>, and \<open>decoded\<close> is the pair its name decodes to, if any.
\<close>

definition owned :: "service \<Rightarrow> bool" where
  "owned s =
     (case svc_labels s of
        None \<Rightarrow> False
      | Some labels \<Rightarrow> map_of labels ''type'' = Some ''pywren-runtime'')"

definition decoded :: "service \<Rightarrow> (string \<times> int) option" where
  "decoded s = (case unformat_service_name (svc_name s) of Inl e \<Rightarrow> None | Inr p \<Rightarrow> Some p)"

definition listed :: "service \<Rightarrow> (string \<times> int) option" where
  "listed s = (if owned s then decoded s else None)"

definition service_name_of :: "string \<times> int \<Rightarrow> string" where
  "service_name_of p = format_service_name (fst p) (snd p)"

section \<open>Waiting on event streams\<close>

text \<open>
  A watch delivers the events of one resource. The stream is opened without a timeout and
  the client reconnects on its own, so a loop over it ends only when the loop body stops the
  watch or raises. A wait is modelled on the list of events delivered so far: when the list
  is used up and nothing has stopped the watch, the wait is still \<open>Blocked\<close>.
\<close>

datatype 'a outcome = Blocked | Raised exn | Returned 'a

record condition =
  ctype :: string
  cstatus :: string

text \<open>
  The \<open>status\<close> of a service event: \<open>st_conditions\<close> is \<open>None\<close> when the key
  \<open>conditions\<close> is missing (indexing it raises KeyError), \<open>st_url\<close> is what
  \<open>.get('url')\<close> returns. An event is the result of \<open>event['object'].get('status')\<close>.
\<close>

record svc_status =
  st_conditions :: "condition list option"
  st_url :: "string option"

type_synonym svc_event = "svc_status option"

text \<open>
  The test of \<open>_create_service\<close>: \<open>conditions and conditions[0]['status'] == 'True' and
  conditions[1]['status'] == 'True' and conditions[2]['status'] == 'True'\<close>, evaluated left
  to right; an index past the end raises IndexError.
\<close>

definition conditions_ready :: "condition list \<Rightarrow> exn + bool" where
  "conditions_ready conditions =
     (if conditions = [] then Inr False
      else if cstatus (conditions ! 0) \<noteq> ''True'' then Inr False
      else if length conditions < 2 then Inl IndexError
      else if cstatus (conditions ! 1) \<noteq> ''True'' then Inr False
      else if length conditions < 3 then Inl IndexError
      else Inr (cstatus (conditions ! 2) = ''True''))"

text \<open>The same test, read off the statuses of the leading entries alone.\<close>

definition statuses_ready :: "string list \<Rightarrow> exn + bool" where
  "statuses_ready ss =
     (case ss of
        [] \<Rightarrow> Inr False
      | a # r \<Rightarrow>
          if a \<noteq> ''True'' then Inr False
          else (case r of
                  [] \<Rightarrow> Inl IndexError
                | b # r' \<Rightarrow>
                    if b \<noteq> ''True'' then Inr False
                    else (case r' of
                            [] \<Rightarrow> Inl IndexError
                          | c # r'' \<Rightarrow> Inr (c = ''True''))))"

text \<open>
  The loop of \<open>_create_service\<close> over the service events; \<open>service_url\<close> is the last url
  seen (\<open>None\<close> while the variable is unbound). After the watch is stopped the url is read:
  UnboundLocalError when no event has carried one.
\<close>

fun watch_service :: "svc_event list \<Rightarrow> string option \<Rightarrow> string outcome" where
  "watch_service [] service_url = Blocked"
| "watch_service (None # events) service_url = watch_service events service_url"
| "watch_service (Some status # events) service_url =
     (case st_conditions status of
        None \<Rightarrow> Raised KeyError
      | Some conditions \<Rightarrow>
          (let service_url = (case st_url status of None \<Rightarrow> service_url | Some u \<Rightarrow> Some u)
           in case conditions_ready conditions of
                Inl e \<Rightarrow> Raised e
              | Inr True \<Rightarrow> (case service_url of
                              None \<Rightarrow> Raised UnboundLocalError
                            | Some u \<Rightarrow> Returned u)
              | Inr False \<Rightarrow> watch_service events service_url))"

text \<open>
  The first loop of \<open>_build_docker_image_from_git\<close>, over the events of the task run: the
  first event with a status stops the watch, and \<open>status['podName']\<close> is the pod to follow
  (KeyError when the key is missing; a null name raises after the loop).
\<close>

datatype pod_name_field = NoPodName | NullPodName | PodName string

type_synonym taskrun_event = "pod_name_field option"

fun watch_taskrun :: "taskrun_event list \<Rightarrow> string outcome" where
  "watch_taskrun [] = Blocked"
| "watch_taskrun (None # events) = watch_taskrun events"
| "watch_taskrun (Some NoPodName # events) = Raised KeyError"
| "watch_taskrun (Some NullPodName # events) =
     Raised (PyException ''Unable to get the pod name from the task that is building the runtime'')"
| "watch_taskrun (Some (PodName n) # events) = Returned n"

text \<open>
  The second loop, over the events of the build pod. An event is the pod's \<open>status\<close>
  attribute (\<open>None\<close> makes \<open>.phase\<close> an AttributeError) holding the phase.
\<close>

type_synonym pod_event = "string option option"

fun watch_pod :: "pod_event list \<Rightarrow> unit outcome" where
  "watch_pod [] = Blocked"
| "watch_pod (None # events) = Raised AttributeError"
| "watch_pod (Some phase # events) =
     (if phase = Some ''Succeeded'' then Returned ()
      else if phase = Some ''Failed''
           then Raised (PyException ''Unable to create the Docker image from the git repository'')
           else watch_pod events)"

text \<open>
  The reading of the specification, for comparison with \<open>conditions_ready\<close>: every required
  condition type is reported with status \<open>True\<close>, wherever it stands in the array.
\<close>

definition ready_by_type :: "string list \<Rightarrow> condition list \<Rightarrow> bool" where
  "ready_by_type required conditions =
     list_all (\<lambda>t. list_ex (\<lambda>c. ctype c = t \<and> cstatus c = ''True'') conditions) required"

section \<open>Creating a runtime\<close>

text \<open>
  The configuration of the backend. The constants of the module \<open>knative.config\<close> and the
  functions \<open>version_str\<close> and \<open>__version__\<close> are not part of the sources at hand; they
  are parameters here: the three default image templates, the labels of the service template
  \<open>service_res\<close>, the version of the package and the version of the interpreter.
\<close>

record kn_config =
  docker_repo :: string
  docker_user :: string
  version :: string
  python_version :: string
  runtime_default_35 :: string
  runtime_default_36 :: string
  runtime_default_37 :: string
  service_res_labels :: "(string \<times> string) list option"

text \<open>
  \<open>_get_default_runtime_image_name\<close>: outside the three interpreter versions the variable
  \<open>image_name\<close> is unbound at the \<open>return\<close>.
\<close>

definition get_default_runtime_image_name :: "kn_config \<Rightarrow> exn + string" where
  "get_default_runtime_image_name cfg =
     (if python_version cfg = ''3.5''
        then Inr (py_replace ''<USER>'' (docker_user cfg) (- 1) (runtime_default_35 cfg))
      else if python_version cfg = ''3.6''
        then Inr (py_replace ''<USER>'' (docker_user cfg) (- 1) (runtime_default_36 cfg))
      else if python_version cfg = ''3.7''
        then Inr (py_replace ''<USER>'' (docker_user cfg) (- 1) (runtime_default_37 cfg))
      else Inl UnboundLocalError)"

text \<open>\<open>'latest' if 'SNAPSHOT' in __version__ else __version__\<close>\<close>

definition revision_of :: "string \<Rightarrow> string" where
  "revision_of v = (if split_first ''SNAPSHOT'' v \<noteq> None then ''latest'' else v)"

text \<open>
  What the build does to the outside, in order. Setting up the account and build resources
  (secret, service account, pipeline resource, task) is one action; whether it raises is
  given by the world, as are the answer of the registry and the two event streams.
\<close>

datatype action =
    RegistryQuery string string
  | SetupBuildResources
  | DeleteTaskRun
  | CreateTaskRun string string

record build_world =
  registry :: "exn + nat"
  build_setup :: "exn option"
  taskrun_events :: "taskrun_event list"
  pod_events :: "pod_event list"

definition run_build ::
  "kn_config \<Rightarrow> build_world \<Rightarrow> string \<Rightarrow> string \<Rightarrow> action list \<Rightarrow> unit outcome \<times> action list" where
  "run_build cfg w docker_image_name revision acts =
     (case build_setup w of
        Some e \<Rightarrow> (Raised e, acts @ [SetupBuildResources])
      | None \<Rightarrow>
          (let acts1 = acts @ [SetupBuildResources, DeleteTaskRun,
                              CreateTaskRun (docker_repo cfg @ ''/'' @ docker_image_name) revision]
           in case watch_taskrun (taskrun_events w) of
                Blocked \<Rightarrow> (Blocked, acts1)
              | Raised e \<Rightarrow> (Raised e, acts1)
              | Returned pod_name \<Rightarrow>
                  (case watch_pod (pod_events w) of
                     Blocked \<Rightarrow> (Blocked, acts1)
                   | Raised e \<Rightarrow> (Raised e, acts1)
                   | Returned u \<Rightarrow> (Returned (), acts1 @ [DeleteTaskRun]))))"

text \<open>
  \<open>_build_docker_image_from_git\<close>: the registry is asked only for the repository
  \<open>docker.io\<close> and a revision other than \<open>latest\<close>; status 200 returns before anything
  is built.
\<close>

definition build_docker_image_from_git ::
  "kn_config \<Rightarrow> build_world \<Rightarrow> string \<Rightarrow> unit outcome \<times> action list" where
  "build_docker_image_from_git cfg w docker_image_name =
     (let revision = revision_of (version cfg)
      in if docker_repo cfg = ''docker.io'' \<and> revision \<noteq> ''latest'' then
           (case registry w of
              Inl e \<Rightarrow> (Raised e, [RegistryQuery docker_image_name revision])
            | Inr status_code \<Rightarrow>
                if status_code = 200 then (Returned (), [RegistryQuery docker_image_name revision])
                else run_build cfg w docker_image_name revision
                       [RegistryQuery docker_image_name revision])
         else run_build cfg w docker_image_name revision [])"

text \<open>
  \<open>_create_service\<close>: an existing service of that name is deleted (errors ignored), the new
  one is created, the events are followed, and on return the host cache entry of the service
  is set to the url without its first seven characters.
\<close>

definition create_service ::
  "kn_config \<Rightarrow> string \<Rightarrow> int \<Rightarrow> int \<Rightarrow> svc_event list \<Rightarrow> kn_state \<Rightarrow> string outcome \<times> kn_state" where
  "create_service cfg docker_image_name runtime_memory timeout events st =
     (let service_name = format_service_name docker_image_name runtime_memory;
          svcs1 = (case api_delete service_name (services st) of
                     Inl e \<Rightarrow> services st
                   | Inr svcs \<Rightarrow> svcs);
          svc_res = \<lparr>svc_name = service_name, svc_labels = service_res_labels cfg, svc_url = None\<rparr>
      in case api_create svc_res svcs1 of
           Inl e \<Rightarrow> (Raised e, st\<lparr>services := svcs1\<rparr>)
         | Inr svcs2 \<Rightarrow>
             (let st2 = st\<lparr>services := svcs2\<rparr>
              in case watch_service events None of
                   Blocked \<Rightarrow> (Blocked, st2)
                 | Raised e \<Rightarrow> (Raised e, st2)
                 | Returned service_url \<Rightarrow>
                     (Returned service_url,
                      st2\<lparr>service_hosts := (service_hosts st2)(service_name \<mapsto> drop 7 service_url)\<rparr>)))"

text \<open>\<open>'preinstalls' not in runtime_meta\<close> for the kinds of value a response can be.\<close>

fun has_preinstalls :: "pyval \<Rightarrow> exn + bool" where
  "has_preinstalls (PyDict d) = Inr (map_of d ''preinstalls'' \<noteq> None)"
| "has_preinstalls (PyList l) = Inr (PyStr ''preinstalls'' \<in> set l)"
| "has_preinstalls (PyStr s) = Inr (split_first ''preinstalls'' s \<noteq> None)"
| "has_preinstalls v = Inl TypeError"

definition generate_runtime_meta ::
  "string \<Rightarrow> int \<Rightarrow> http_outcome \<Rightarrow> kn_state \<Rightarrow> (exn + pyval) \<times> kn_state" where
  "generate_runtime_meta docker_image_name memory out st =
     (case kn_invoke docker_image_name memory [''service_route'' \<mapsto> PyStr ''/preinstalls''] True out st of
        (Inl e, st') \<Rightarrow> (Inl (PyException ''Unable to invoke modules action''), st')
      | (Inr runtime_meta, st') \<Rightarrow>
          if \<not> truthy runtime_meta
          then (Inl (PyException ''Failed getting runtime metadata''), st')
          else (case has_preinstalls runtime_meta of
                  Inl e \<Rightarrow> (Inl e, st')
                | Inr False \<Rightarrow> (Inl (PyException ''Failed getting runtime metadata''), st')
                | Inr True \<Rightarrow> (Inr runtime_meta, st')))"

record world =
  build :: build_world
  svc_events :: "svc_event list"
  probe :: http_outcome

text \<open>
  \<open>create_runtime\<close>, with the actions of the build it ran. Only the image \<open>default\<close> or
  the default image name itself is built; any other image must exist already.
\<close>

definition create_runtime ::
  "kn_config \<Rightarrow> world \<Rightarrow> string \<Rightarrow> int \<Rightarrow> int \<Rightarrow> kn_state
   \<Rightarrow> pyval outcome \<times> kn_state \<times> action list" where
  "create_runtime cfg w docker_image_name memory timeout st =
     (case get_default_runtime_image_name cfg of
        Inl e \<Rightarrow> (Raised e, st, [])
      | Inr default_runtime_img_name \<Rightarrow>
          (let sentinel = (docker_image_name = ''default'' \<or> docker_image_name = default_runtime_img_name);
               docker_image_name = (if sentinel then default_runtime_img_name else docker_image_name);
               built = (if sentinel
                        then build_docker_image_from_git cfg (build w) default_runtime_img_name
                        else (Returned (), []))
           in case fst built of
                Blocked \<Rightarrow> (Blocked, st, snd built)
              | Raised e \<Rightarrow> (Raised e, st, snd built)
              | Returned u \<Rightarrow>
                  (case create_service cfg docker_image_name memory timeout (svc_events w) st of
                     (Blocked, st1) \<Rightarrow> (Blocked, st1, snd built)
                   | (Raised e, st1) \<Rightarrow> (Raised e, st1, snd built)
                   | (Returned service_url, st1) \<Rightarrow>
                       (let st2 = (case endpoint st1 of
                                     None \<Rightarrow> st1\<lparr>endpoint := Some service_url\<rparr>
                                   | Some ep \<Rightarrow> st1)
                        in case generate_runtime_meta docker_image_name memory (probe w) st2 of
                             (Inl e, st3) \<Rightarrow> (Raised e, st3, snd built)
                           | (Inr runtime_meta, st3) \<Rightarrow> (Returned runtime_meta, st3, snd built)))))"

section \<open>Example inputs\<close>

text \<open>
  A small cluster for the concrete instances below: the runtime \<open>(user/runtime, 256)\<close>,
  whose service is \<open>user--runtime--256mb\<close>, seen with an empty cache, with a cached host
  and without any service, a configuration, and a stream that reports the service ready.
\<close>

definition ex_uncached :: kn_state where
  "ex_uncached =
     \<lparr>service_hosts = Map.empty, endpoint = None, host_header = None,
      services = [\<lparr>svc_name = ''user--runtime--256mb'', svc_labels = None,
                   svc_url = Some ''http://runtime.example.com''\<rparr>]\<rparr>"

definition ex_cached :: kn_state where
  "ex_cached =
     \<lparr>service_hosts = [''user--runtime--256mb'' \<mapsto> ''old.example.com''], endpoint = None,
      host_header = None,
      services = [\<lparr>svc_name = ''user--runtime--256mb'', svc_labels = None,
                   svc_url = Some ''http://old.example.com''\<rparr>]\<rparr>"

definition ex_empty :: kn_state where
  "ex_empty = \<lparr>service_hosts = Map.empty, endpoint = None, host_header = None, services = []\<rparr>"

definition ex_config :: kn_config where
  "ex_config =
     \<lparr>docker_repo = ''docker.io'', docker_user = ''user'', version = ''1.0.0'',
      python_version = ''3.7'', runtime_default_35 = ''<USER>/runtime-v35'',
      runtime_default_36 = ''<USER>/runtime-v36'', runtime_default_37 = ''<USER>/runtime-v37'',
      service_res_labels = Some [(''type'', ''pywren-runtime'')]\<rparr>"

definition ex_ready_events :: "svc_event list" where
  "ex_ready_events =
     [None,
      Some \<lparr>st_conditions = Some [\<lparr>ctype = ''ConfigurationsReady'', cstatus = ''True''\<rparr>,
                                  \<lparr>ctype = ''Ready'', cstatus = ''True''\<rparr>,
                                  \<lparr>ctype = ''RoutesReady'', cstatus = ''True''\<rparr>],
            st_url = Some ''http://new.example.com''\<rparr>]"

text \<open>
  Two worlds for \<open>create_runtime\<close>: in the first the registry already holds the image at the
  tag, in the second it does not and the build runs to its end.
\<close>

definition ex_world_present :: world where
  "ex_world_present =
     \<lparr>build = \<lparr>registry = Inr 200, build_setup = None, taskrun_events = [], pod_events = []\<rparr>,
      svc_events = ex_ready_events,
      probe = Response 200 (Some (PyDict [(''preinstalls'', PyList [PyStr ''numpy''])]))\<rparr>"

definition ex_world_absent :: world where
  "ex_world_absent =
     \<lparr>build = \<lparr>registry = Inr 404, build_setup = None,
               taskrun_events = [None, Some (PodName ''build-pod'')],
               pod_events = [Some (Some ''Pending''), Some (Some ''Running''), Some (Some ''Succeeded'')]\<rparr>,
      svc_events = ex_ready_events,
      probe = Response 200 (Some (PyDict [(''preinstalls'', PyList [PyStr ''numpy''])]))\<rparr>"




text \<open>
  The same configuration on an interpreter outside 3.5, 3.6 and 3.7, and with a private
  registry; and a build world whose registry already holds the image and whose build would run
  to its end.
\<close>

definition ex_config_py38 :: kn_config where
  "ex_config_py38 = ex_config\<lparr>python_version := ''3.8''\<rparr>"

definition ex_config_private :: kn_config where
  "ex_config_private = ex_config\<lparr>docker_repo := ''us.icr.io''\<rparr>"

definition ex_build_existing :: build_world where
  "ex_build_existing =
     \<lparr>registry = Inr 200, build_setup = None,
      taskrun_events = [None, Some (PodName ''build-pod'')],
      pod_events = [Some (Some ''Pending''), Some (Some ''Running''), Some (Some ''Succeeded'')]\<rparr>"

text \<open>
  A namespace with four services: two runtimes created by the backend, for
  \<open>(user/runtime, 256)\<close> and for \<open>(org/team/runtime, 512)\<close>, a service of another
  application, and a labelled service whose name is not a runtime name.
\<close>

definition ex_cluster :: kn_state where
  "ex_cluster =
     \<lparr>service_hosts = Map.empty, endpoint = None, host_header = None,
      services =
        [\<lparr>svc_name = ''user--runtime--256mb'', svc_labels = Some [(''type'', ''pywren-runtime'')],
          svc_url = Some ''http://runtime.example.com''\<rparr>,
         \<lparr>svc_name = ''frontend'', svc_labels = Some [(''app'', ''web'')], svc_url = None\<rparr>,
         \<lparr>svc_name = ''notaruntime'', svc_labels = Some [(''type'', ''pywren-runtime'')],
          svc_url = None\<rparr>,
         \<lparr>svc_name = ''org--team--runtime--512mb'',
          svc_labels = Some [(''type'', ''pywren-runtime'')], svc_url = None\<rparr>]\<rparr>"

section \<open>Facts about the string primitives\<close>


declare py_replace.simps [simp del]
declare digits_of.simps [simp del]

lemma py_replace_Nil: "old \<noteq> [] \<Longrightarrow> py_replace old new count [] = []"
  by (subst py_replace.simps) simp

lemma py_replace_zero: "old \<noteq> [] \<Longrightarrow> py_replace old new 0 s = s"
  by (subst py_replace.simps) simp

lemma py_replace_hit:
  "old \<noteq> [] \<Longrightarrow> count \<noteq> 0 \<Longrightarrow> startswith old (c # cs) \<Longrightarrow>
   py_replace old new count (c # cs) = new @ py_replace old new (count - 1) (drop (length old) (c # cs))"
  by (subst py_replace.simps) simp

lemma py_replace_miss:
  "old \<noteq> [] \<Longrightarrow> count \<noteq> 0 \<Longrightarrow> \<not> startswith old (c # cs) \<Longrightarrow>
   py_replace old new count (c # cs) = c # py_replace old new count cs"
  by (subst py_replace.simps) simp

lemma py_replace_char:
  "count < 0 \<Longrightarrow> py_replace [x] new count s = concat (map (\<lambda>c. if c = x then new else [c]) s)"
proof (induction s arbitrary: count)
  case Nil
  then show ?case by (simp add: py_replace_Nil)
next
  case (Cons c cs)
  show ?case
  proof (cases "c = x")
    case True
    then have "py_replace [x] new count (c # cs) = new @ py_replace [x] new (count - 1) cs"
      using Cons.prems by (simp add: py_replace_hit)
    then show ?thesis using True Cons.IH [of "count - 1"] Cons.prems by simp
  next
    case False
    then have "py_replace [x] new count (c # cs) = c # py_replace [x] new count cs"
      using Cons.prems by (simp add: py_replace_miss)
    then show ?thesis using False Cons.IH [of count] Cons.prems by simp
  qed
qed

lemma encode_image:
  "py_replace '':'' ''--'' (- 1) (py_replace ''/'' ''--'' (- 1) s) = concat (map enc_char s)"
  by (induction s) (simp_all add: py_replace_char enc_char_def)

lemma dash_free_tl: "dash_free (c # cs) \<Longrightarrow> dash_free cs"
  by (cases cs) simp_all

lemma hd_concat_enc:
  "cs \<noteq> [] \<Longrightarrow> hd cs \<noteq> CHR ''/'' \<Longrightarrow> hd cs \<noteq> CHR '':'' \<Longrightarrow>
   concat (map enc_char cs) = hd cs # concat (map enc_char (tl cs))"
  by (cases cs) (simp_all add: enc_char_def)

lemma startswith_dashes: "startswith ''--'' s = (\<exists>r. s = CHR ''-'' # CHR ''-'' # r)"
  by (cases s; cases "tl s") auto

lemma decode_colons:
  "dash_free t \<Longrightarrow> count < 0 \<Longrightarrow>
   py_replace ''--'' '':'' count (concat (map enc_colon t)) = t"
proof (induction t arbitrary: count)
  case Nil
  then show ?case by (simp add: py_replace_Nil)
next
  case (Cons c t)
  have df: "dash_free t" using Cons.prems(1) by (rule dash_free_tl)
  show ?case
  proof (cases "c = CHR '':''")
    case True
    have "py_replace ''--'' '':'' count (concat (map enc_colon (c # t)))
          = '':'' @ py_replace ''--'' '':'' (count - 1) (concat (map enc_colon t))"
      using True Cons.prems(2) by (simp add: enc_colon_def py_replace_hit)
    then show ?thesis using Cons.IH [OF df, of "count - 1"] Cons.prems(2) True by simp
  next
    case False
    have miss: "\<not> startswith ''--'' (c # concat (map enc_colon t))"
    proof (cases "c = CHR ''-''")
      case True
      show ?thesis
      proof (cases t)
        case Nil
        then show ?thesis by simp
      next
        case (Cons b bs)
        with True Cons.prems(1) have "b \<noteq> CHR ''-''" "b \<noteq> CHR '':''" by simp_all
        then show ?thesis using Cons by (simp add: enc_colon_def)
      qed
    next
      case False
      then show ?thesis by simp
    qed
    have "py_replace ''--'' '':'' count (concat (map enc_colon (c # t)))
          = c # py_replace ''--'' '':'' count (concat (map enc_colon t))"
      using False miss Cons.prems(2) by (simp add: enc_colon_def py_replace_miss)
    then show ?thesis using Cons.IH [OF df, of count] Cons.prems(2) by simp
  qed
qed

lemma decode_first_slash:
  "dash_free (p @ CHR ''/'' # q) \<Longrightarrow> CHR ''/'' \<notin> set p \<Longrightarrow> CHR '':'' \<notin> set p \<Longrightarrow>
   py_replace ''--'' ''/'' 1 (concat (map enc_char (p @ CHR ''/'' # q)))
     = p @ CHR ''/'' # concat (map enc_char q)"
proof (induction p)
  case Nil
  then show ?case by (simp add: enc_char_def py_replace_hit py_replace_zero)
next
  case (Cons c p)
  have df: "dash_free (p @ CHR ''/'' # q)" using Cons.prems(1) by (simp add: dash_free_tl)
  have c: "c \<noteq> CHR ''/''" "c \<noteq> CHR '':''" using Cons.prems by auto
  have miss: "\<not> startswith ''--'' (c # concat (map enc_char (p @ CHR ''/'' # q)))"
  proof (cases "c = CHR ''-''")
    case True
    show ?thesis
    proof (cases p)
      case Nil
      with True Cons.prems(1) show ?thesis by simp
    next
      case (Cons b bs)
      with True Cons.prems(1) have "b \<noteq> CHR ''-''" "b \<noteq> CHR '':''" "b \<noteq> CHR ''/''" by simp_all
      then show ?thesis using Cons by (simp add: enc_char_def)
    qed
  next
    case False
    then show ?thesis by simp
  qed
  have "py_replace ''--'' ''/'' 1 (concat (map enc_char ((c # p) @ CHR ''/'' # q)))
        = c # py_replace ''--'' ''/'' 1 (concat (map enc_char (p @ CHR ''/'' # q)))"
    using c miss by (simp add: enc_char_def py_replace_miss)
  then show ?case using Cons.IH [OF df] Cons.prems by simp
qed

lemma replace_dashes_none:
  "dash_free s \<Longrightarrow> count \<noteq> 0 \<Longrightarrow>
   py_replace ''--'' new count s = s"
proof (induction s)
  case Nil
  then show ?case by (simp add: py_replace_Nil)
next
  case (Cons c s)
  have df: "dash_free s" using Cons.prems(1) by (rule dash_free_tl)
  have miss: "\<not> startswith ''--'' (c # s)"
    using Cons.prems(1) by (cases s) auto
  then show ?case using Cons.IH [OF df] Cons.prems(2) by (simp add: py_replace_miss)
qed

lemma split_first_dashes:
  "CHR ''-'' \<notin> set p \<Longrightarrow> split_first ''--'' (p @ ''--'' @ r) = Some (p, r)"
  by (induction p) auto

lemma rsplit_last_dashes:
  assumes "CHR ''-'' \<notin> set m"
  shows "py_rsplit1 ''--'' (l @ ''--'' @ m) = Inr [l, m]"
proof -
  have "rev (l @ ''--'' @ m) = rev m @ ''--'' @ rev l" by simp
  moreover have "split_first ''--'' (rev m @ ''--'' @ rev l) = Some (rev m, rev l)"
    using assms by (intro split_first_dashes) simp
  ultimately show ?thesis by (simp add: py_rsplit1_def)
qed

lemma strip_mb:
  "CHR ''m'' \<notin> set p \<Longrightarrow> count \<noteq> 0 \<Longrightarrow> py_replace ''mb'' [] count (p @ ''mb'') = p"
proof (induction p)
  case Nil
  then show ?case by (simp add: py_replace_hit py_replace_Nil)
next
  case (Cons c p)
  then show ?case by (simp add: py_replace_miss)
qed

lemma is_digit_digit_char: "d < 10 \<Longrightarrow> is_digit (digit_char d)"
  by (simp add: is_digit_def digit_char_def)

lemma digit_val_digit_char: "d < 10 \<Longrightarrow> digit_val (digit_char d) = d"
  by (simp add: digit_val_def digit_char_def)

lemma digit_not_punct:
  "is_digit c \<Longrightarrow> c \<noteq> CHR ''_'' \<and> c \<noteq> CHR ''-'' \<and> c \<noteq> CHR ''+'' \<and> c \<noteq> CHR ''m''"
  by (auto simp: is_digit_def)

lemma digits_of_digits: "c \<in> set (digits_of n) \<Longrightarrow> is_digit c"
proof (induction n arbitrary: c rule: digits_of.induct)
  case (1 n)
  show ?case
  proof (cases "n < 10")
    case True
    with "1.prems" show ?thesis by (subst (asm) digits_of.simps) (simp add: is_digit_digit_char)
  next
    case False
    with "1.prems" have "c \<in> set (digits_of (n div 10)) \<or> c = digit_char (n mod 10)"
      by (subst (asm) digits_of.simps) auto
    then show ?thesis using "1.IH" False by (auto simp: is_digit_digit_char)
  qed
qed

lemma digits_of_nonempty: "digits_of n \<noteq> []"
  by (subst digits_of.simps) simp

lemma digits_ok_all: "s \<noteq> [] \<Longrightarrow> \<forall>c \<in> set s. is_digit c \<Longrightarrow> digits_ok s"
proof (induction s rule: digits_ok.induct)
  case (3 c d cs)
  then have "d \<noteq> CHR ''_''" by (auto simp: is_digit_def)
  with 3 show ?case by simp
qed simp_all

lemma digits_value_of: "digits_value (digits_of n) = n"
proof (induction n rule: digits_of.induct)
  case (1 n)
  show ?case
  proof (cases "n < 10")
    case True
    moreover have "digit_char n \<noteq> CHR ''_''"
      using is_digit_digit_char [OF True] by (auto simp: is_digit_def)
    ultimately show ?thesis
      by (subst digits_of.simps) (simp add: digits_value_def digit_val_digit_char)
  next
    case False
    have nu: "filter (\<lambda>c. c \<noteq> CHR ''_'') (digits_of (n div 10)) = digits_of (n div 10)"
      using digits_of_digits digit_not_punct by (fastforce simp: filter_id_conv)
    have "digit_char (n mod 10) \<noteq> CHR ''_''"
      using is_digit_digit_char [of "n mod 10"] by (auto simp: is_digit_def)
    then have "digits_value (digits_of n) = 10 * digits_value (digits_of (n div 10)) + n mod 10"
      using False nu
      by (subst digits_of.simps) (simp add: digits_value_def digit_val_digit_char)
    then show ?thesis using "1.IH" False by simp
  qed
qed

lemma digit_not_space: "is_digit c \<Longrightarrow> \<not> is_space c"
  by (auto simp: is_digit_def is_space_def)

lemma strip_digits: "s \<noteq> [] \<Longrightarrow> \<forall>c \<in> set s. is_digit c \<Longrightarrow> py_strip s = s"
proof -
  assume ne: "s \<noteq> []" and dg: "\<forall>c \<in> set s. is_digit c"
  have "\<not> is_space (hd s)" using ne dg by (simp add: digit_not_space)
  then have a: "dropWhile is_space s = s" using ne by (cases s) simp_all
  have "\<not> is_space (hd (rev s))" using ne dg by (simp add: digit_not_space hd_rev)
  then have "dropWhile is_space (rev s) = rev s" using ne by (cases "rev s") simp_all
  then show ?thesis using a by (simp add: py_strip_def)
qed

lemma py_int_digits_of: "py_int (digits_of n) = Inr (int n)"
proof -
  have dg: "\<forall>c \<in> set (digits_of n). is_digit c" using digits_of_digits by blast
  have ne: "digits_of n \<noteq> []" by (rule digits_of_nonempty)
  obtain c cs where cs: "digits_of n = c # cs" using ne by (cases "digits_of n") auto
  have "is_digit c" using dg cs by simp
  then have sign: "c \<noteq> CHR ''-''" "c \<noteq> CHR ''+''" by (auto simp: is_digit_def)
  have "parse_digits (digits_of n) = Inr (int n)"
    using digits_ok_all [OF ne dg] by (simp add: parse_digits_def digits_value_of)
  then show ?thesis using strip_digits [OF ne dg] cs sign by (simp add: py_int_def)
qed

lemma digits_of_no_dash: "CHR ''-'' \<notin> set (digits_of n)" "CHR ''m'' \<notin> set (digits_of n)"
  using digits_of_digits digit_not_punct by blast+

lemma separators_split:
  "separators s = c # cs \<Longrightarrow>
   \<exists>p q. s = p @ c # q \<and> separators p = [] \<and> separators q = cs"
proof -
  assume "separators s = c # cs"
  then obtain p q where "s = p @ c # q" "\<forall>u\<in>set p. \<not> (u = CHR ''/'' \<or> u = CHR '':'')"
    "cs = filter (\<lambda>c. c = CHR ''/'' \<or> c = CHR '':'') q"
    unfolding separators_def filter_eq_Cons_iff by blast
  then have "s = p @ c # q \<and> separators p = [] \<and> separators q = cs"
    unfolding separators_def by (simp add: filter_empty_conv)
  then show ?thesis by blast
qed

lemma separators_empty: "separators s = [] \<longleftrightarrow> CHR ''/'' \<notin> set s \<and> CHR '':'' \<notin> set s"
  unfolding separators_def by (auto simp: filter_empty_conv)

lemma enc_char_plain: "CHR ''/'' \<notin> set s \<Longrightarrow> CHR '':'' \<notin> set s \<Longrightarrow> concat (map enc_char s) = s"
  by (induction s) (auto simp: enc_char_def)

lemma enc_char_colon: "CHR ''/'' \<notin> set s \<Longrightarrow> map enc_char s = map enc_colon s"
  by (induction s) (auto simp: enc_char_def enc_colon_def)

lemma enc_colon_plain: "CHR '':'' \<notin> set s \<Longrightarrow> concat (map enc_colon s) = s"
  by (induction s) (auto simp: enc_colon_def)

lemma decode_image:
  assumes "image_shape s"
  shows "py_replace ''--'' '':'' (- 1) (py_replace ''--'' ''/'' 1 (concat (map enc_char s))) = s"
proof (cases "separators s")
  case Nil
  then have plain: "concat (map enc_char s) = s"
    by (simp add: separators_empty enc_char_plain)
  have "dash_free s" using assms by (simp add: image_shape_def)
  then show ?thesis using plain by (simp add: replace_dashes_none)
next
  case (Cons c cs)
  with assms have c: "c = CHR ''/''" and cs: "list_all (\<lambda>x. x = CHR '':'') cs" and df: "dash_free s"
    by (simp_all add: image_shape_def)
  obtain p q where s: "s = p @ c # q" and p: "separators p = []" and q: "separators q = cs"
    using separators_split [OF Cons] by blast
  have pn: "CHR ''/'' \<notin> set p" "CHR '':'' \<notin> set p" using p by (simp_all add: separators_empty)
  have qn: "CHR ''/'' \<notin> set q"
  proof
    assume "CHR ''/'' \<in> set q"
    then have "CHR ''/'' \<in> set (separators q)" by (simp add: separators_def)
    then show False using q cs by (auto simp: list_all_iff)
  qed
  have first: "py_replace ''--'' ''/'' 1 (concat (map enc_char s)) = p @ CHR ''/'' # concat (map enc_char q)"
    using decode_first_slash [of p q] df pn s c by simp
  have "concat (map enc_colon s) = p @ CHR ''/'' # concat (map enc_char q)"
    unfolding s c using pn qn by (simp add: enc_char_colon enc_colon_plain enc_colon_def)
  then have "py_replace ''--'' ''/'' 1 (concat (map enc_char s)) = concat (map enc_colon s)"
    using first by (rule ssubst)
  moreover have "py_replace ''--'' '':'' (- 1) (concat (map enc_colon s)) = s"
    by (rule decode_colons [OF df]) simp
  ultimately show ?thesis by (rule ssubst)
qed

lemma unformat_format_image:
  assumes "0 \<le> memory"
  shows "unformat_service_name (format_service_name img memory) =
         Inr (py_replace ''--'' '':'' (- 1) (py_replace ''--'' ''/'' 1 (concat (map enc_char img))), memory)"
proof -
  define d where "d = digits_of (nat memory)"
  define m where "m = d @ ''mb''"
  define l where "l = concat (map enc_char img)"
  have str: "py_str_int memory = d" using assms by (simp add: py_str_int_def d_def)
  have nd: "CHR ''-'' \<notin> set m" using digits_of_no_dash(1) by (simp add: m_def d_def)
  have "format_service_name img memory = l @ ''--'' @ m"
    unfolding format_service_name_def Let_def encode_image str l_def m_def by simp
  then have cut: "py_rsplit1 ''--'' (format_service_name img memory) = Inr [l, m]"
    using rsplit_last_dashes [OF nd, of l] by simp
  have "py_replace ''mb'' [] (- 1) m = d"
    unfolding m_def by (rule strip_mb) (simp_all add: d_def digits_of_no_dash(2))
  then have mem: "py_int (py_replace ''mb'' [] (- 1) m) = Inr memory"
    using assms by (simp add: d_def py_int_digits_of)
  show ?thesis unfolding unformat_service_name_def cut using mem by (simp add: l_def)
qed


lemma replace_all_count:
  "old \<noteq> [] \<Longrightarrow> c < 0 \<Longrightarrow> c' < 0 \<Longrightarrow> py_replace old new c s = py_replace old new c' s"
proof (induction "length s" arbitrary: s c c' rule: less_induct)
  case less
  show ?case
  proof (cases s)
    case Nil
    then show ?thesis using less.prems by (simp add: py_replace_Nil)
  next
    case (Cons x xs)
    show ?thesis
    proof (cases "startswith old s")
      case True
      have "length (drop (length old) s) < length s" using less.prems(1) Cons by simp
      then have "py_replace old new (c - 1) (drop (length old) s) = py_replace old new (c' - 1) (drop (length old) s)"
        using less.hyps [of "drop (length old) s" "c - 1" "c' - 1"] less.prems by simp
      then show ?thesis using True Cons less.prems by (simp add: py_replace_hit)
    next
      case False
      have "py_replace old new c xs = py_replace old new c' xs"
        using less.hyps [of xs c c'] less.prems Cons by simp
      then show ?thesis using False Cons less.prems by (simp add: py_replace_miss)
    qed
  qed
qed

lemma cons_eq_tl: "a # xs = b # ys \<Longrightarrow> xs = ys"
  by simp

lemma cons_eq_hd: "a # xs = b # ys \<Longrightarrow> a = b"
  by simp

lemma dash_free_if_decodes:
  "c < 0 \<Longrightarrow> py_replace ''--'' '':'' c (concat (map enc_char s)) = map norm_sep s \<Longrightarrow> dash_free s"
proof (induction s arbitrary: c)
  case Nil
  then show ?case by simp
next
  case (Cons x t)
  let ?R = "py_replace ''--'' '':''"
  show ?case
  proof (cases "x = CHR ''/'' \<or> x = CHR '':''")
    case True
    then have e: "concat (map enc_char (x # t)) = CHR ''-'' # CHR ''-'' # concat (map enc_char t)"
      by (auto simp: enc_char_def)
    have "?R c (concat (map enc_char (x # t))) = CHR '':'' # ?R (c - 1) (concat (map enc_char t))"
      unfolding e using Cons.prems(1) by (simp add: py_replace_hit)
    then have "CHR '':'' # ?R (c - 1) (concat (map enc_char t)) = norm_sep x # map norm_sep t"
      using Cons.prems(2) by (simp only: list.map)
    then have "?R (c - 1) (concat (map enc_char t)) = map norm_sep t"
      by (rule cons_eq_tl)
    then have "dash_free t" using Cons.IH [of "c - 1"] Cons.prems(1) by simp
    then show ?thesis using True by (cases t) auto
  next
    case False
    then have e: "concat (map enc_char (x # t)) = x # concat (map enc_char t)"
      by (simp add: enc_char_def)
    have nx: "norm_sep x = x" using False by (simp add: norm_sep_def)
    show ?thesis
    proof (cases "startswith ''--'' (x # concat (map enc_char t))")
      case True
      have "?R c (x # concat (map enc_char t))
               = '':'' @ ?R (c - 1) (drop (length ''--'') (x # concat (map enc_char t)))"
      proof (rule py_replace_hit)
        show "''--'' \<noteq> []" by simp
        show "c \<noteq> 0" using Cons.prems(1) by simp
        show "startswith ''--'' (x # concat (map enc_char t))" by (rule True)
      qed
      then have "?R c (concat (map enc_char (x # t)))
               = CHR '':'' # ?R (c - 1) (drop 2 (x # concat (map enc_char t)))"
        unfolding e by simp
      then have "CHR '':'' # ?R (c - 1) (drop 2 (x # concat (map enc_char t)))
                 = norm_sep x # map norm_sep t"
        using Cons.prems(2) by (simp only: list.map)
      then have "CHR '':'' = norm_sep x" by (rule cons_eq_hd)
      then have "x = CHR '':''" using nx by simp
      then show ?thesis using False by simp
    next
      case miss: False
      have "?R c (x # concat (map enc_char t)) = x # ?R c (concat (map enc_char t))"
      proof (rule py_replace_miss)
        show "''--'' \<noteq> []" by simp
        show "c \<noteq> 0" using Cons.prems(1) by simp
        show "\<not> startswith ''--'' (x # concat (map enc_char t))" by (rule miss)
      qed
      then have "?R c (concat (map enc_char (x # t))) = x # ?R c (concat (map enc_char t))"
        unfolding e .
      then have "x # ?R c (concat (map enc_char t)) = norm_sep x # map norm_sep t"
        using Cons.prems(2) by (simp only: list.map)
      then have "?R c (concat (map enc_char t)) = map norm_sep t"
        by (rule cons_eq_tl)
      then have df: "dash_free t" using Cons.IH [of c] Cons.prems(1) by simp
      show ?thesis
      proof (cases t)
        case Nil
        then show ?thesis by simp
      next
        case (Cons b bs)
        have "x = CHR ''-'' \<Longrightarrow> b \<noteq> CHR ''-'' \<and> b \<noteq> CHR ''/'' \<and> b \<noteq> CHR '':''"
          using miss Cons by (auto simp: enc_char_def)
        then show ?thesis using df Cons by auto
      qed
    qed
  qed
qed

lemma dashes_hit:
  assumes "c \<noteq> 0" and "startswith ''--'' (x # t)"
  shows "py_replace ''--'' new c (x # t) = new @ py_replace ''--'' new (c - 1) (drop 2 (x # t))"
proof -
  have "py_replace ''--'' new c (x # t)
        = new @ py_replace ''--'' new (c - 1) (drop (length ''--'') (x # t))"
  proof (rule py_replace_hit)
    show "''--'' \<noteq> []" by simp
  qed (rule assms)+
  moreover have "length ''--'' = 2" by simp
  ultimately show ?thesis by (simp only:)
qed

lemma dashes_miss:
  assumes "c \<noteq> 0" and "\<not> startswith ''--'' (x # t)"
  shows "py_replace ''--'' new c (x # t) = x # py_replace ''--'' new c t"
proof (rule py_replace_miss)
  show "''--'' \<noteq> []" by simp
qed (rule assms)+

lemma replace_colon_no_slash:
  "CHR ''/'' \<notin> set s \<Longrightarrow> CHR ''/'' \<notin> set (py_replace ''--'' '':'' c s)"
proof (induction "length s" arbitrary: s c rule: less_induct)
  case less
  show ?case
  proof (cases "c = 0")
    case True
    then show ?thesis using less.prems by (simp add: py_replace_zero)
  next
    case c: False
    show ?thesis
    proof (cases s)
      case Nil
      then show ?thesis by (simp add: py_replace_Nil)
    next
      case (Cons x xs)
      show ?thesis
      proof (cases "startswith ''--'' (x # xs)")
        case True
        have eq: "py_replace ''--'' '':'' c (x # xs)
              = '':'' @ py_replace ''--'' '':'' (c - 1) (drop 2 (x # xs))"
          using c True by (rule dashes_hit)
        have "CHR ''/'' \<notin> set (drop 2 (x # xs))"
          using less.prems Cons by (auto dest: in_set_dropD)
        moreover have "length (drop 2 (x # xs)) < length s" using Cons by simp
        ultimately have "CHR ''/'' \<notin> set (py_replace ''--'' '':'' (c - 1) (drop 2 (x # xs)))"
          using less.hyps by blast
        then show ?thesis unfolding Cons eq by simp
      next
        case False
        have eq: "py_replace ''--'' '':'' c (x # xs) = x # py_replace ''--'' '':'' c xs"
          using c False by (rule dashes_miss)
        have "CHR ''/'' \<notin> set (py_replace ''--'' '':'' c xs)"
          using less.hyps [of xs c] less.prems Cons by simp
        then show ?thesis unfolding Cons eq using less.prems Cons by simp
      qed
    qed
  qed
qed

lemma norm_sep_id: "CHR ''/'' \<notin> set s \<Longrightarrow> map norm_sep s = s"
  by (induction s) (auto simp: norm_sep_def)

lemma replace_first_head:
  "\<not> startswith ''--'' (x # t) \<Longrightarrow> py_replace ''--'' ''/'' 1 (x # t) = x # py_replace ''--'' ''/'' 1 t"
  by (rule dashes_miss) simp_all

lemma replace_first_keeps_miss:
  assumes "\<not> startswith ''--'' (x # t)"
  shows "\<not> startswith ''--'' (x # py_replace ''--'' ''/'' 1 t)"
proof (cases t)
  case Nil
  then show ?thesis by (simp add: py_replace_Nil)
next
  case (Cons y ys)
  show ?thesis
  proof (cases "startswith ''--'' (y # ys)")
    case True
    then have "y = CHR ''-''" by (cases ys) auto
    then have "x \<noteq> CHR ''-''" using assms Cons by auto
    then show ?thesis by simp
  next
    case False
    then have "py_replace ''--'' ''/'' 1 t = y # py_replace ''--'' ''/'' 1 ys"
      unfolding Cons by (rule replace_first_head)
    then show ?thesis using assms Cons by auto
  qed
qed

lemma replace_first_hit:
  "startswith ''--'' (x # t) \<Longrightarrow> py_replace ''--'' ''/'' 1 (x # t) = CHR ''/'' # drop 2 (x # t)"
proof -
  assume a: "startswith ''--'' (x # t)"
  have "py_replace ''--'' ''/'' 1 (x # t)
        = ''/'' @ py_replace ''--'' ''/'' (1 - 1) (drop 2 (x # t))"
    using _ a by (rule dashes_hit) simp
  then show ?thesis by (simp add: py_replace_zero)
qed

lemma replace_colon_after_slash:
  "c < 0 \<Longrightarrow> py_replace ''--'' '':'' c (CHR ''/'' # s) = CHR ''/'' # py_replace ''--'' '':'' c s"
  by (rule dashes_miss) simp_all

lemma decode_up_to_separator:
  "CHR ''/'' \<notin> set l \<Longrightarrow> c < 0 \<Longrightarrow>
   map norm_sep (py_replace ''--'' '':'' c (py_replace ''--'' ''/'' 1 l)) = py_replace ''--'' '':'' c l"
proof (induction l)
  case Nil
  then show ?case by (simp add: py_replace_Nil)
next
  case (Cons x t)
  let ?R = "py_replace ''--'' '':''"
  show ?case
  proof (cases "startswith ''--'' (x # t)")
    case True
    have ns: "CHR ''/'' \<notin> set (drop 2 (x # t))" using Cons.prems(1) by (auto dest: in_set_dropD)
    have "?R c (py_replace ''--'' ''/'' 1 (x # t)) = CHR ''/'' # ?R c (drop 2 (x # t))"
      using True Cons.prems(2) by (simp only: replace_first_hit replace_colon_after_slash)
    then have l: "map norm_sep (?R c (py_replace ''--'' ''/'' 1 (x # t)))
               = CHR '':'' # ?R c (drop 2 (x # t))"
      using norm_sep_id [OF replace_colon_no_slash [OF ns, of c]] by (simp add: norm_sep_def)
    have "c \<noteq> 0" using Cons.prems(2) by simp
    then have "?R c (x # t) = '':'' @ ?R (c - 1) (drop 2 (x # t))"
      using True by (rule dashes_hit)
    moreover have "?R (c - 1) (drop 2 (x # t)) = ?R c (drop 2 (x # t))"
      using Cons.prems(2) by (intro replace_all_count) simp_all
    ultimately have "?R c (x # t) = CHR '':'' # ?R c (drop 2 (x # t))" by simp
    then show ?thesis using l by simp
  next
    case False
    have x: "x \<noteq> CHR ''/''" using Cons.prems(1) by auto
    have c0: "c \<noteq> 0" using Cons.prems(2) by simp
    have "?R c (x # py_replace ''--'' ''/'' 1 t) = x # ?R c (py_replace ''--'' ''/'' 1 t)"
      using c0 replace_first_keeps_miss [OF False] by (rule dashes_miss)
    then have "map norm_sep (?R c (py_replace ''--'' ''/'' 1 (x # t)))
          = x # map norm_sep (?R c (py_replace ''--'' ''/'' 1 t))"
      using x by (simp add: replace_first_head [OF False] norm_sep_def)
    moreover have "?R c (x # t) = x # ?R c t"
      using c0 False by (rule dashes_miss)
    ultimately show ?thesis using Cons.IH Cons.prems by simp
  qed
qed

lemma separators_colon_only:
  "CHR ''/'' \<notin> set s \<Longrightarrow> list_all (\<lambda>x. x = CHR '':'') (separators s)"
  by (induction s) (auto simp: separators_def)

lemma decode_separator_shape:
  "CHR ''/'' \<notin> set l \<Longrightarrow> CHR '':'' \<notin> set l \<Longrightarrow> c < 0 \<Longrightarrow>
   (case separators (py_replace ''--'' '':'' c (py_replace ''--'' ''/'' 1 l)) of
      [] \<Rightarrow> True
    | s # ss \<Rightarrow> s = CHR ''/'' \<and> list_all (\<lambda>x. x = CHR '':'') ss)"
proof (induction l)
  case Nil
  then show ?case by (simp add: py_replace_Nil separators_def)
next
  case (Cons x t)
  let ?R = "py_replace ''--'' '':''"
  show ?case
  proof (cases "startswith ''--'' (x # t)")
    case True
    have ns: "CHR ''/'' \<notin> set (drop 2 (x # t))" using Cons.prems(1) by (auto dest: in_set_dropD)
    have "?R c (py_replace ''--'' ''/'' 1 (x # t)) = CHR ''/'' # ?R c (drop 2 (x # t))"
      using True Cons.prems(3) by (simp only: replace_first_hit replace_colon_after_slash)
    then have "separators (?R c (py_replace ''--'' ''/'' 1 (x # t)))
               = CHR ''/'' # separators (?R c (drop 2 (x # t)))"
      by (simp add: separators_def)
    then show ?thesis
      using separators_colon_only [OF replace_colon_no_slash [OF ns, of c]] by simp
  next
    case False
    have x: "x \<noteq> CHR ''/''" "x \<noteq> CHR '':''" using Cons.prems by auto
    have c0: "c \<noteq> 0" using Cons.prems(3) by simp
    have "?R c (x # py_replace ''--'' ''/'' 1 t) = x # ?R c (py_replace ''--'' ''/'' 1 t)"
      using c0 replace_first_keeps_miss [OF False] by (rule dashes_miss)
    then have "separators (?R c (py_replace ''--'' ''/'' 1 (x # t)))
          = separators (?R c (py_replace ''--'' ''/'' 1 t))"
      using x by (simp add: replace_first_head [OF False] separators_def)
    then show ?thesis using Cons.IH Cons.prems by simp
  qed
qed

lemma enc_char_no_separator:
  "CHR ''/'' \<notin> set (concat (map enc_char s))" "CHR '':'' \<notin> set (concat (map enc_char s))"
  by (induction s) (auto simp: enc_char_def)

lemma image_shape_if_decodes:
  assumes "py_replace ''--'' '':'' (- 1) (py_replace ''--'' ''/'' 1 (concat (map enc_char s))) = s"
  shows "image_shape s"
proof -
  let ?l = "concat (map enc_char s)"
  have "map norm_sep s = py_replace ''--'' '':'' (- 1) ?l"
    using decode_up_to_separator [OF enc_char_no_separator(1), of "- 1" s] assms by simp
  then have "dash_free s" using dash_free_if_decodes [of "- 1" s] by simp
  moreover have "case separators s of [] \<Rightarrow> True
                 | c # cs \<Rightarrow> c = CHR ''/'' \<and> list_all (\<lambda>x. x = CHR '':'') cs"
    using decode_separator_shape [OF enc_char_no_separator, of "- 1" s] assms by simp
  ultimately show ?thesis by (simp add: image_shape_def)
qed

lemma unformat_format_negative:
  assumes "memory < 0"
  shows "\<exists>x. unformat_service_name (format_service_name img memory) = Inr (x, - memory)"
proof -
  define d where "d = digits_of (nat (- memory))"
  define m where "m = d @ ''mb''"
  define l where "l = concat (map enc_char img) @ ''-''"
  have str: "py_str_int memory = CHR ''-'' # d" using assms by (simp add: py_str_int_def d_def)
  have nd: "CHR ''-'' \<notin> set m" using digits_of_no_dash(1) by (simp add: m_def d_def)
  have "format_service_name img memory = l @ ''--'' @ m"
    unfolding format_service_name_def Let_def encode_image str l_def m_def by simp
  then have cut: "py_rsplit1 ''--'' (format_service_name img memory) = Inr [l, m]"
    using rsplit_last_dashes [OF nd, of l] by simp
  have "py_replace ''mb'' [] (- 1) m = d"
    unfolding m_def by (rule strip_mb) (simp_all add: d_def digits_of_no_dash(2))
  then have mem: "py_int (py_replace ''mb'' [] (- 1) m) = Inr (- memory)"
    using assms by (simp add: d_def py_int_digits_of)
  show ?thesis unfolding unformat_service_name_def cut using mem by simp
qed


lemma reencode_colons:
  "CHR ''/'' \<notin> set s \<Longrightarrow> CHR '':'' \<notin> set s \<Longrightarrow>
   concat (map enc_char (py_replace ''--'' '':'' c s)) = s"
proof (induction "length s" arbitrary: s c rule: less_induct)
  case less
  show ?case
  proof (cases "c = 0")
    case True
    then show ?thesis using less.prems by (simp add: py_replace_zero enc_char_plain)
  next
    case c: False
    show ?thesis
    proof (cases s)
      case Nil
      then show ?thesis by (simp add: py_replace_Nil)
    next
      case (Cons x xs)
      show ?thesis
      proof (cases "startswith ''--'' (x # xs)")
        case True
        from True [unfolded startswith_dashes]
        obtain r where r: "x # xs = CHR ''-'' # CHR ''-'' # r" ..
        have eq: "py_replace ''--'' '':'' c (CHR ''-'' # CHR ''-'' # r)
              = CHR '':'' # py_replace ''--'' '':'' (c - 1) r"
          using c by (simp add: dashes_hit)
        have "CHR ''/'' \<notin> set r" "CHR '':'' \<notin> set r" "length r < length s"
          using less.prems Cons r by auto
        then have "concat (map enc_char (py_replace ''--'' '':'' (c - 1) r)) = r"
          using less.hyps [of r "c - 1"] by simp
        then have "concat (map enc_char (py_replace ''--'' '':'' c (CHR ''-'' # CHR ''-'' # r)))
                   = CHR ''-'' # CHR ''-'' # r"
          unfolding eq by (simp add: enc_char_def)
        then show ?thesis using Cons r by simp
      next
        case False
        have eq: "py_replace ''--'' '':'' c (x # xs) = x # py_replace ''--'' '':'' c xs"
          using c False by (rule dashes_miss)
        have "concat (map enc_char (py_replace ''--'' '':'' c xs)) = xs"
          using less.hyps [of xs c] less.prems Cons by simp
        then show ?thesis unfolding Cons eq using less.prems Cons by (auto simp: enc_char_def)
      qed
    qed
  qed
qed

lemma reencode_decoded:
  "CHR ''/'' \<notin> set l \<Longrightarrow> CHR '':'' \<notin> set l \<Longrightarrow> c < 0 \<Longrightarrow>
   concat (map enc_char (py_replace ''--'' '':'' c (py_replace ''--'' ''/'' 1 l))) = l"
proof (induction l)
  case Nil
  then show ?case by (simp add: py_replace_Nil)
next
  case (Cons x t)
  let ?R = "py_replace ''--'' '':''"
  have c0: "c \<noteq> 0" using Cons.prems(3) by simp
  show ?case
  proof (cases "startswith ''--'' (x # t)")
    case True
    from True [unfolded startswith_dashes]
    obtain r where r: "x # t = CHR ''-'' # CHR ''-'' # r" ..
    have "?R c (py_replace ''--'' ''/'' 1 (x # t)) = CHR ''/'' # ?R c (drop 2 (x # t))"
      using True Cons.prems(3) by (simp only: replace_first_hit replace_colon_after_slash)
    then have a: "?R c (py_replace ''--'' ''/'' 1 (x # t)) = CHR ''/'' # ?R c r"
      using r by simp
    have "CHR ''/'' \<notin> set r" "CHR '':'' \<notin> set r" using Cons.prems r by auto
    then have "concat (map enc_char (?R c r)) = r" by (rule reencode_colons)
    then have "concat (map enc_char (CHR ''/'' # ?R c r)) = CHR ''-'' # CHR ''-'' # r"
      by (simp add: enc_char_def)
    then show ?thesis unfolding a using r by simp
  next
    case False
    have x: "x \<noteq> CHR ''/''" "x \<noteq> CHR '':''" using Cons.prems by auto
    have "?R c (x # py_replace ''--'' ''/'' 1 t) = x # ?R c (py_replace ''--'' ''/'' 1 t)"
      using c0 replace_first_keeps_miss [OF False] by (rule dashes_miss)
    then show ?thesis using x Cons.IH Cons.prems
      by (simp add: replace_first_head [OF False] enc_char_def)
  qed
qed

lemma unformat_format_negative_pair:
  assumes "memory < 0"
  shows "unformat_service_name (format_service_name img memory)
         = Inr (py_replace ''--'' '':'' (- 1)
                 (py_replace ''--'' ''/'' 1 (concat (map enc_char img) @ ''-'')), - memory)"
proof -
  define d where "d = digits_of (nat (- memory))"
  define m where "m = d @ ''mb''"
  define l where "l = concat (map enc_char img) @ ''-''"
  have str: "py_str_int memory = CHR ''-'' # d" using assms by (simp add: py_str_int_def d_def)
  have nd: "CHR ''-'' \<notin> set m" using digits_of_no_dash(1) by (simp add: m_def d_def)
  have "format_service_name img memory = l @ ''--'' @ m"
    unfolding format_service_name_def Let_def encode_image str l_def m_def by simp
  then have cut: "py_rsplit1 ''--'' (format_service_name img memory) = Inr [l, m]"
    using rsplit_last_dashes [OF nd, of l] by simp
  have "py_replace ''mb'' [] (- 1) m = d"
    unfolding m_def by (rule strip_mb) (simp_all add: d_def digits_of_no_dash(2))
  then have mem: "py_int (py_replace ''mb'' [] (- 1) m) = Inr (- memory)"
    using assms by (simp add: d_def py_int_digits_of)
  show ?thesis unfolding unformat_service_name_def cut using mem by (simp add: l_def)
qed

lemma format_via_enc:
  "format_service_name i m = concat (map enc_char i) @ ''--'' @ py_str_int m @ ''mb''"
  by (simp add: format_service_name_def encode_image)

lemma formatted_name_canonical:
  "\<exists>p. unformat_service_name (format_service_name i m) = Inr p \<and>
       service_name_of p = format_service_name i m"
proof (cases "0 \<le> m")
  case True
  let ?x = "py_replace ''--'' '':'' (- 1) (py_replace ''--'' ''/'' 1 (concat (map enc_char i)))"
  have "concat (map enc_char ?x) = concat (map enc_char i)"
    using enc_char_no_separator [of i] by (rule reencode_decoded) simp
  then have "service_name_of (?x, m) = format_service_name i m"
    by (simp add: service_name_of_def format_via_enc)
  then show ?thesis using unformat_format_image [OF True, of i] by simp
next
  case False
  then have neg: "m < 0" by simp
  let ?x = "py_replace ''--'' '':'' (- 1)
              (py_replace ''--'' ''/'' 1 (concat (map enc_char i) @ ''-''))"
  have ns: "CHR ''/'' \<notin> set (concat (map enc_char i) @ ''-'')"
    "CHR '':'' \<notin> set (concat (map enc_char i) @ ''-'')"
    using enc_char_no_separator [of i] by auto
  have "concat (map enc_char ?x) = concat (map enc_char i) @ ''-''"
    using ns by (rule reencode_decoded) simp
  moreover have "py_str_int (- m) = digits_of (nat (- m))" "py_str_int m = CHR ''-'' # digits_of (nat (- m))"
    using neg by (simp_all add: py_str_int_def)
  ultimately have "service_name_of (?x, - m) = format_service_name i m"
    by (simp add: service_name_of_def format_via_enc)
  then show ?thesis using unformat_format_negative_pair [OF neg, of i] by simp
qed

lemma format_user_runtime:
  "format_service_name ''user/runtime'' 256 = ''user--runtime--256mb''"
  by code_simp

section \<open>Claims about the service-name codec\<close>

text \<open>
  C1 (as amended). Decoding the encoded service name returns exactly the original pair if and
  only if the memory size is not negative and the image name has the supported shape: no dash
  stands directly before a dash, a slash or a colon, and its slashes and colons, read left to
  right, are either absent or one slash followed by colons only. The encoder checks nothing
  and accepts every image name.
\<close>

theorem service_name_roundtrip:
  "unformat_service_name (format_service_name img memory) = Inr (img, memory)
   \<longleftrightarrow> image_shape img \<and> 0 \<le> memory"
proof (cases "0 \<le> memory")
  case True
  then show ?thesis
    using unformat_format_image [OF True, of img] decode_image [of img] image_shape_if_decodes [of img]
    by auto
next
  case False
  then have "memory < 0" by simp
  then obtain x where "unformat_service_name (format_service_name img memory) = Inr (x, - memory)"
    using unformat_format_negative by blast
  then show ?thesis using False by auto
qed

theorem service_name_roundtrip_witness:
  "image_shape ''ibmfunctions/runtime:v37'' \<and> (0::int) \<le> 256 \<and>
   unformat_service_name (format_service_name ''ibmfunctions/runtime:v37'' 256)
     = Inr (''ibmfunctions/runtime:v37'', 256)"
  using service_name_roundtrip [of "''ibmfunctions/runtime:v37''" 256]
  by (simp add: image_shape_def separators_def)

text \<open>
  C1 as stated fails: an image name with two slashes contains no \<open>--\<close>, is encoded
  without complaint, and decodes to a different name, because the decoder turns only the first
  \<open>--\<close> back into a slash.
\<close>

theorem service_name_roundtrip_counterexample:
  "split_first ''--'' ''org/team/runtime'' = None \<and>
   format_service_name ''org/team/runtime'' 256 = ''org--team--runtime--256mb'' \<and>
   unformat_service_name (format_service_name ''org/team/runtime'' 256)
     = Inr (''org/team:runtime'', 256) \<and>
   unformat_service_name (format_service_name ''org/team/runtime'' 256)
     \<noteq> Inr (''org/team/runtime'', 256)"
  by code_simp
section \<open>Claims about invocation and retry\<close>

declare retry_loop.simps [simp del]















lemma try_request_404: "try_request return_result (Response 404 body) = PyNone"
  by (simp add: try_request_def classify_response_def)

text \<open>
  C2 (the code at the failing input). A response with status 404 makes the backend's
  \<open>invoke\<close> return \<open>None\<close>, whatever its body and mode, because the exception raised
  for it is caught in the same \<open>try\<close> block; with retry enabled and \<open>retries = 3\<close>
  an invocation that meets 404 on every attempt is therefore attempted three times and ends
  with \<open>None\<close>, not with an error.
\<close>

theorem invoke_404_is_retried:
  "(\<forall>return_result body. try_request return_result (Response 404 body) = PyNone) \<and>
   fst (compute_invoke_knative \<lparr>invocation_retry = True, retries = 3, retry_sleeps = [1, 2, 4]\<rparr>
          ''user/runtime'' 256
          [''executor_id'' \<mapsto> PyStr ''e1'', ''call_id'' \<mapsto> PyStr ''00001'']
          (\<lambda>k. Response 404 None) (\<lambda>k. 0)
          \<lparr>service_hosts = [''user--runtime--256mb'' \<mapsto> ''runtime.example.com''],
           endpoint = Some ''http://10.0.0.1:31380'', host_header = None, services = []\<rparr>)
     = Inr PyNone \<and>
   snd (snd (compute_invoke_knative \<lparr>invocation_retry = True, retries = 3, retry_sleeps = [1, 2, 4]\<rparr>
          ''user/runtime'' 256
          [''executor_id'' \<mapsto> PyStr ''e1'', ''call_id'' \<mapsto> PyStr ''00001'']
          (\<lambda>k. Response 404 None) (\<lambda>k. 0)
          \<lparr>service_hosts = [''user--runtime--256mb'' \<mapsto> ''runtime.example.com''],
           endpoint = Some ''http://10.0.0.1:31380'', host_header = None, services = []\<rparr>))
     = 3"
proof -
  have f: "format_service_name ''user/runtime'' 256 = ''user--runtime--256mb''" by code_simp
  show ?thesis
    by (simp add: try_request_404 compute_invoke_knative_def compute_invoke_def kn_invoke_def f
        get_service_host_def retry_loop.simps random_choice_def)
qed
section \<open>Claims about the readiness wait\<close>

lemma conditions_ready_statuses:
  "conditions_ready cs = statuses_ready (map cstatus (take 3 cs))"
proof (cases cs)
  case Nil
  then show ?thesis by (simp add: conditions_ready_def statuses_ready_def)
next
  case c1: (Cons a r)
  show ?thesis
  proof (cases r)
    case Nil
    then show ?thesis using c1 by (simp add: conditions_ready_def statuses_ready_def)
  next
    case c2: (Cons b r')
    show ?thesis
    proof (cases r')
      case Nil
      then show ?thesis using c1 c2 by (simp add: conditions_ready_def statuses_ready_def)
    next
      case (Cons c r'')
      then show ?thesis using c1 c2
        by (simp add: conditions_ready_def statuses_ready_def numeral_3_eq_3)
    qed
  qed
qed

lemma conditions_ready_True:
  "conditions_ready cs = Inr True \<longleftrightarrow>
     3 \<le> length cs \<and> cstatus (cs ! 0) = ''True'' \<and> cstatus (cs ! 1) = ''True'' \<and>
     cstatus (cs ! 2) = ''True''"
  by (auto simp: conditions_ready_def)

lemma three_conditions:
  assumes "length cs = 3"
  obtains a b c where "cs = [a, b, c]"
proof -
  from assms obtain a r where 1: "cs = a # r" "length r = 2" by (cases cs) auto
  then obtain b r' where 2: "r = b # r'" "length r' = 1" by (cases r) auto
  then obtain c where "r' = [c]" by (cases r') auto
  then show ?thesis using 1 2 that by simp
qed

lemma conditions_ready_by_type:
  assumes "length cs = 3" and "distinct (map ctype cs)" and "set (map ctype cs) = set required"
  shows "conditions_ready cs = Inr (ready_by_type required cs)"
proof -
  obtain a b c where cs: "cs = [a, b, c]" using assms(1) by (rule three_conditions)
  have d: "ctype a \<noteq> ctype b" "ctype a \<noteq> ctype c" "ctype b \<noteq> ctype c"
    using assms(2) cs by auto
  have req: "set required = {ctype a, ctype b, ctype c}" using assms(3) cs by auto
  have "ready_by_type required cs \<longleftrightarrow>
        (\<forall>t \<in> {ctype a, ctype b, ctype c}. \<exists>x \<in> {a, b, c}. ctype x = t \<and> cstatus x = ''True'')"
    unfolding ready_by_type_def list_all_iff list_ex_iff req cs by simp
  also have "\<dots> \<longleftrightarrow> cstatus a = ''True'' \<and> cstatus b = ''True'' \<and> cstatus c = ''True''"
    using d by auto
  finally show ?thesis unfolding cs by (auto simp: conditions_ready_def)
qed

text \<open>
  C4 (as amended). For every status event the readiness test of \<open>_create_service\<close> reads the
  statuses of the first three entries of the conditions array by position: it succeeds exactly
  when the array has at least three entries and these three statuses are \<open>True\<close>, and two
  arrays whose first three statuses agree get the same verdict, whatever their condition types
  and later entries. When the array consists of exactly three conditions of distinct types and
  these are the required types, the verdict is that all required types report true.
\<close>

theorem conditions_ready_positional:
  "(conditions_ready cs = Inr True \<longleftrightarrow>
      3 \<le> length cs \<and> cstatus (cs ! 0) = ''True'' \<and> cstatus (cs ! 1) = ''True'' \<and>
      cstatus (cs ! 2) = ''True'') \<and>
   (map cstatus (take 3 cs) = map cstatus (take 3 cs')
      \<longrightarrow> conditions_ready cs = conditions_ready cs') \<and>
   (length cs = 3 \<and> distinct (map ctype cs) \<and> set (map ctype cs) = set required
      \<longrightarrow> conditions_ready cs = Inr (ready_by_type required cs))"
  using conditions_ready_True [of cs] conditions_ready_statuses [of cs]
    conditions_ready_statuses [of cs'] conditions_ready_by_type [of cs required]
  by simp

theorem conditions_ready_positional_witness:
  "map cstatus (take 3 [\<lparr>ctype = ''ConfigurationsReady'', cstatus = ''True''\<rparr>,
                        \<lparr>ctype = ''Ready'', cstatus = ''True''\<rparr>,
                        \<lparr>ctype = ''RoutesReady'', cstatus = ''True''\<rparr>])
     = map cstatus (take 3 [\<lparr>ctype = ''A'', cstatus = ''True''\<rparr>, \<lparr>ctype = ''B'', cstatus = ''True''\<rparr>,
                            \<lparr>ctype = ''C'', cstatus = ''True''\<rparr>, \<lparr>ctype = ''D'', cstatus = ''False''\<rparr>]) \<and>
   conditions_ready [\<lparr>ctype = ''ConfigurationsReady'', cstatus = ''True''\<rparr>,
                     \<lparr>ctype = ''Ready'', cstatus = ''True''\<rparr>,
                     \<lparr>ctype = ''RoutesReady'', cstatus = ''True''\<rparr>]
     = conditions_ready [\<lparr>ctype = ''A'', cstatus = ''True''\<rparr>, \<lparr>ctype = ''B'', cstatus = ''True''\<rparr>,
                         \<lparr>ctype = ''C'', cstatus = ''True''\<rparr>, \<lparr>ctype = ''D'', cstatus = ''False''\<rparr>] \<and>
   length [\<lparr>ctype = ''ConfigurationsReady'', cstatus = ''True''\<rparr>,
           \<lparr>ctype = ''Ready'', cstatus = ''True''\<rparr>,
           \<lparr>ctype = ''RoutesReady'', cstatus = ''True''\<rparr>] = 3 \<and>
   distinct (map ctype [\<lparr>ctype = ''ConfigurationsReady'', cstatus = ''True''\<rparr>,
                        \<lparr>ctype = ''Ready'', cstatus = ''True''\<rparr>,
                        \<lparr>ctype = ''RoutesReady'', cstatus = ''True''\<rparr>]) \<and>
   set (map ctype [\<lparr>ctype = ''ConfigurationsReady'', cstatus = ''True''\<rparr>,
                   \<lparr>ctype = ''Ready'', cstatus = ''True''\<rparr>,
                   \<lparr>ctype = ''RoutesReady'', cstatus = ''True''\<rparr>])
     = set [''Ready'', ''ConfigurationsReady'', ''RoutesReady''] \<and>
   conditions_ready [\<lparr>ctype = ''ConfigurationsReady'', cstatus = ''True''\<rparr>,
                     \<lparr>ctype = ''Ready'', cstatus = ''True''\<rparr>,
                     \<lparr>ctype = ''RoutesReady'', cstatus = ''True''\<rparr>]
     = Inr (ready_by_type [''Ready'', ''ConfigurationsReady'', ''RoutesReady'']
              [\<lparr>ctype = ''ConfigurationsReady'', cstatus = ''True''\<rparr>,
               \<lparr>ctype = ''Ready'', cstatus = ''True''\<rparr>,
               \<lparr>ctype = ''RoutesReady'', cstatus = ''True''\<rparr>])"
  using conditions_ready_positional
    [of "[\<lparr>ctype = ''ConfigurationsReady'', cstatus = ''True''\<rparr>,
          \<lparr>ctype = ''Ready'', cstatus = ''True''\<rparr>,
          \<lparr>ctype = ''RoutesReady'', cstatus = ''True''\<rparr>]"
        "[\<lparr>ctype = ''A'', cstatus = ''True''\<rparr>, \<lparr>ctype = ''B'', cstatus = ''True''\<rparr>,
          \<lparr>ctype = ''C'', cstatus = ''True''\<rparr>, \<lparr>ctype = ''D'', cstatus = ''False''\<rparr>]"
        "[''Ready'', ''ConfigurationsReady'', ''RoutesReady'']"]
  by (simp add: insert_commute conditions_ready_def ready_by_type_def)

text \<open>
  C4 as stated fails: with four conditions of which the first three are true and the required
  type \<open>Ready\<close> is false in fourth place, the test succeeds and the wait returns; the same
  conditions in another order do not succeed.
\<close>

theorem conditions_ready_positional_counterexample:
  "conditions_ready [\<lparr>ctype = ''ConfigurationsReady'', cstatus = ''True''\<rparr>,
                     \<lparr>ctype = ''RoutesReady'', cstatus = ''True''\<rparr>,
                     \<lparr>ctype = ''Active'', cstatus = ''True''\<rparr>,
                     \<lparr>ctype = ''Ready'', cstatus = ''False''\<rparr>] = Inr True \<and>
   \<not> ready_by_type [''ConfigurationsReady'', ''Ready'', ''RoutesReady'']
        [\<lparr>ctype = ''ConfigurationsReady'', cstatus = ''True''\<rparr>,
         \<lparr>ctype = ''RoutesReady'', cstatus = ''True''\<rparr>,
         \<lparr>ctype = ''Active'', cstatus = ''True''\<rparr>,
         \<lparr>ctype = ''Ready'', cstatus = ''False''\<rparr>] \<and>
   conditions_ready [\<lparr>ctype = ''Ready'', cstatus = ''False''\<rparr>,
                     \<lparr>ctype = ''ConfigurationsReady'', cstatus = ''True''\<rparr>,
                     \<lparr>ctype = ''RoutesReady'', cstatus = ''True''\<rparr>,
                     \<lparr>ctype = ''Active'', cstatus = ''True''\<rparr>] = Inr False \<and>
   watch_service
     [Some \<lparr>st_conditions = Some [\<lparr>ctype = ''ConfigurationsReady'', cstatus = ''True''\<rparr>,
                                   \<lparr>ctype = ''RoutesReady'', cstatus = ''True''\<rparr>,
                                   \<lparr>ctype = ''Active'', cstatus = ''True''\<rparr>,
                                   \<lparr>ctype = ''Ready'', cstatus = ''False''\<rparr>],
            st_url = Some ''http://runtime.example.com''\<rparr>] None
     = Returned ''http://runtime.example.com''"
  by (simp add: conditions_ready_def ready_by_type_def)

lemma watch_service_keeps_waiting:
  "st_conditions status = Some cs \<Longrightarrow> conditions_ready cs = Inr False \<Longrightarrow>
   watch_service (Some status # events) url
     = watch_service events (case st_url status of None \<Rightarrow> url | Some v \<Rightarrow> Some v)"
  by simp

lemma watch_service_returned:
  "watch_service events url = Returned u \<Longrightarrow>
   \<exists>status cs. Some status \<in> set events \<and> st_conditions status = Some cs \<and>
               conditions_ready cs = Inr True"
proof (induction events url rule: watch_service.induct)
  case (1 service_url)
  then show ?case by simp
next
  case (2 events service_url)
  then show ?case by auto
next
  case (3 status events service_url)
  show ?case
  proof (cases "st_conditions status")
    case None
    then show ?thesis using "3.prems" by simp
  next
    case (Some cs)
    show ?thesis
    proof (cases "conditions_ready cs")
      case (Inl e)
      then show ?thesis using "3.prems" Some by simp
    next
      case (Inr b)
      show ?thesis
      proof (cases b)
        case True
        then show ?thesis using Some Inr by auto
      next
        case False
        then have "watch_service events (case st_url status of None \<Rightarrow> service_url | Some v \<Rightarrow> Some v)
                   = Returned u"
          using "3.prems" Some Inr by simp
        then have "\<exists>status cs. Some status \<in> set events \<and> st_conditions status = Some cs \<and>
               conditions_ready cs = Inr True"
          using "3.IH" [OF Some refl, of False] Inr False by simp
        then show ?thesis by auto
      qed
    qed
  qed
qed

lemma watch_service_blocked:
  "\<forall>e \<in> set pre. e = None \<or>
      (\<exists>s cs. e = Some s \<and> st_conditions s = Some cs \<and> conditions_ready cs = Inr False) \<Longrightarrow>
   watch_service pre url = Blocked"
proof (induction pre arbitrary: url)
  case Nil
  then show ?case by simp
next
  case (Cons e pre)
  then show ?case by (cases e) auto
qed

lemma watch_pod_prefix:
  assumes "\<forall>p \<in> set pre. \<exists>ph. p = Some ph \<and> ph \<noteq> Some ''Succeeded'' \<and> ph \<noteq> Some ''Failed''"
  shows "watch_pod (pre @ rest) = watch_pod rest"
  using assms by (induction pre) auto

text \<open>
  C5 (as amended). The wait of \<open>_create_service\<close> returns only when some delivered event
  passes the positional readiness test, and stays blocked as long as every event so far has no
  status or fails the test; it has no deadline and no notion of failure. Events without status
  are skipped by the service wait and by the task-run wait. The wait on the build pod stays
  blocked while the phase is neither \<open>Succeeded\<close> nor \<open>Failed\<close>, returns at the first
  \<open>Succeeded\<close> and raises at the first \<open>Failed\<close>.
\<close>

theorem readiness_wait_behaviour:
  "(watch_service events None = Returned u \<longrightarrow>
      (\<exists>status cs. Some status \<in> set events \<and> st_conditions status = Some cs \<and>
                  conditions_ready cs = Inr True)) \<and>
   ((\<forall>e \<in> set pre. e = None \<or>
        (\<exists>s cs. e = Some s \<and> st_conditions s = Some cs \<and> conditions_ready cs = Inr False))
      \<longrightarrow> watch_service pre url = Blocked) \<and>
   watch_service (None # events) url = watch_service events url \<and>
   watch_taskrun (None # tevents) = watch_taskrun tevents \<and>
   ((\<forall>p \<in> set ppre. \<exists>ph. p = Some ph \<and> ph \<noteq> Some ''Succeeded'' \<and> ph \<noteq> Some ''Failed'')
      \<longrightarrow> watch_pod ppre = Blocked \<and>
          watch_pod (ppre @ Some (Some ''Succeeded'') # rest) = Returned () \<and>
          watch_pod (ppre @ Some (Some ''Failed'') # rest)
            = Raised (PyException ''Unable to create the Docker image from the git repository''))"
proof (intro conjI impI)
  show "\<exists>status cs. Some status \<in> set events \<and> st_conditions status = Some cs \<and>
                  conditions_ready cs = Inr True"
    if "watch_service events None = Returned u"
    using that by (rule watch_service_returned)
  show "watch_service pre url = Blocked"
    if "\<forall>e \<in> set pre. e = None \<or>
        (\<exists>s cs. e = Some s \<and> st_conditions s = Some cs \<and> conditions_ready cs = Inr False)"
    using that by (rule watch_service_blocked)
  show "watch_service (None # events) url = watch_service events url" by simp
  show "watch_taskrun (None # tevents) = watch_taskrun tevents" by simp
next
  assume a: "\<forall>p \<in> set ppre. \<exists>ph. p = Some ph \<and> ph \<noteq> Some ''Succeeded'' \<and> ph \<noteq> Some ''Failed''"
  show "watch_pod ppre = Blocked" using watch_pod_prefix [OF a, of "[]"] by simp
  show "watch_pod (ppre @ Some (Some ''Succeeded'') # rest) = Returned ()"
    using watch_pod_prefix [OF a] by simp
  show "watch_pod (ppre @ Some (Some ''Failed'') # rest)
            = Raised (PyException ''Unable to create the Docker image from the git repository'')"
    using watch_pod_prefix [OF a] by simp
qed

theorem readiness_wait_behaviour_witness:
  "watch_service
     [None,
      Some \<lparr>st_conditions = Some [\<lparr>ctype = ''ConfigurationsReady'', cstatus = ''True''\<rparr>,
                                  \<lparr>ctype = ''Ready'', cstatus = ''True''\<rparr>,
                                  \<lparr>ctype = ''RoutesReady'', cstatus = ''True''\<rparr>],
            st_url = Some ''http://runtime.example.com''\<rparr>] None
     = Returned ''http://runtime.example.com'' \<and>
   conditions_ready [\<lparr>ctype = ''ConfigurationsReady'', cstatus = ''True''\<rparr>,
                     \<lparr>ctype = ''Ready'', cstatus = ''True''\<rparr>,
                     \<lparr>ctype = ''RoutesReady'', cstatus = ''True''\<rparr>] = Inr True \<and>
   conditions_ready [\<lparr>ctype = ''ConfigurationsReady'', cstatus = ''Unknown''\<rparr>] = Inr False \<and>
   watch_service
     [None, Some \<lparr>st_conditions = Some [\<lparr>ctype = ''ConfigurationsReady'', cstatus = ''Unknown''\<rparr>],
                  st_url = None\<rparr>] None = Blocked \<and>
   watch_pod [Some (Some ''Pending''), Some (Some ''Running'')] = Blocked \<and>
   watch_pod ([Some (Some ''Pending''), Some (Some ''Running'')] @ Some (Some ''Succeeded'') # [])
     = Returned () \<and>
   watch_pod ([Some (Some ''Pending''), Some (Some ''Running'')] @ Some (Some ''Failed'') # [])
     = Raised (PyException ''Unable to create the Docker image from the git repository'')"
  using readiness_wait_behaviour
    [of "[None,
          Some \<lparr>st_conditions = Some [\<lparr>ctype = ''ConfigurationsReady'', cstatus = ''True''\<rparr>,
                                      \<lparr>ctype = ''Ready'', cstatus = ''True''\<rparr>,
                                      \<lparr>ctype = ''RoutesReady'', cstatus = ''True''\<rparr>],
                st_url = Some ''http://runtime.example.com''\<rparr>]"
        "''http://runtime.example.com''"
        "[None, Some \<lparr>st_conditions = Some [\<lparr>ctype = ''ConfigurationsReady'', cstatus = ''Unknown''\<rparr>],
                      st_url = None\<rparr>]"
        None "[]"
        "[Some (Some ''Pending''), Some (Some ''Running'')]" "[]"]
  by (simp add: conditions_ready_def)

text \<open>
  C5 as stated fails for the service wait: an event whose conditions are all \<open>False\<close> does
  not end the wait with failure; the wait goes on and returns the url when a later event is
  ready.
\<close>

theorem readiness_wait_behaviour_counterexample:
  "watch_service
     [Some \<lparr>st_conditions = Some [\<lparr>ctype = ''ConfigurationsReady'', cstatus = ''False''\<rparr>,
                                  \<lparr>ctype = ''Ready'', cstatus = ''False''\<rparr>,
                                  \<lparr>ctype = ''RoutesReady'', cstatus = ''False''\<rparr>],
            st_url = None\<rparr>] None = Blocked \<and>
   watch_service
     [Some \<lparr>st_conditions = Some [\<lparr>ctype = ''ConfigurationsReady'', cstatus = ''False''\<rparr>,
                                  \<lparr>ctype = ''Ready'', cstatus = ''False''\<rparr>,
                                  \<lparr>ctype = ''RoutesReady'', cstatus = ''False''\<rparr>],
            st_url = None\<rparr>,
      Some \<lparr>st_conditions = Some [\<lparr>ctype = ''ConfigurationsReady'', cstatus = ''True''\<rparr>,
                                  \<lparr>ctype = ''Ready'', cstatus = ''True''\<rparr>,
                                  \<lparr>ctype = ''RoutesReady'', cstatus = ''True''\<rparr>],
            st_url = Some ''http://runtime.example.com''\<rparr>] None
     = Returned ''http://runtime.example.com''"
  by (simp add: conditions_ready_def)
section \<open>Claims about the host cache and the default build\<close>

lemma get_service_host_cached:
  "service_hosts st name = Some h \<Longrightarrow> get_service_host name st = (Inr h, st)"
  by (simp add: get_service_host_def)

lemma get_service_host_resolved:
  "service_hosts st name = None \<Longrightarrow> get_service_host name st = (Inr h, st') \<Longrightarrow>
   st' = st\<lparr>service_hosts := (service_hosts st)(name \<mapsto> h)\<rparr> \<and>
   (\<exists>svc url. api_get name (services st) = Inr svc \<and> svc_url svc = Some url \<and> h = drop 7 url)"
  by (auto simp: get_service_host_def Let_def split: sum.splits option.splits)

lemma get_service_host_failed:
  "get_service_host name st = (Inl e, st') \<Longrightarrow> st' = st"
  by (auto simp: get_service_host_def Let_def split: sum.splits option.splits)

lemma create_service_cache:
  "create_service cfg i m t events st = (Returned url, st') \<Longrightarrow>
   service_hosts st' = (service_hosts st)(format_service_name i m \<mapsto> drop 7 url)"
  by (auto simp: create_service_def Let_def split: sum.splits outcome.splits)

lemma delete_runtime_cache:
  "service_hosts (snd (delete_runtime i m st)) = service_hosts st"
  by (simp add: delete_runtime_def Let_def split: sum.splits)

text \<open>
  C6 (as amended). The host cache entry of a service is created by the first successful
  resolution (the url of the service without its first seven characters), later lookups answer
  from the cache without changing the state, a failed resolution leaves the state as it was,
  and \<open>_create_service\<close> overwrites the entry when the service is created again.
  \<open>delete_runtime\<close> leaves the cache as it is.
\<close>

theorem host_cache_lifecycle:
  "(service_hosts st name = None \<and> get_service_host name st = (Inr h, st')
      \<longrightarrow> st' = st\<lparr>service_hosts := (service_hosts st)(name \<mapsto> h)\<rparr> \<and>
          (\<exists>svc url. api_get name (services st) = Inr svc \<and> svc_url svc = Some url \<and>
                     h = drop 7 url)) \<and>
   (service_hosts st name = Some h \<longrightarrow> get_service_host name st = (Inr h, st)) \<and>
   (get_service_host name st = (Inl e, st') \<longrightarrow> st' = st) \<and>
   (create_service cfg i m t events st = (Returned url, st'')
      \<longrightarrow> service_hosts st'' = (service_hosts st)(format_service_name i m \<mapsto> drop 7 url)) \<and>
   service_hosts (snd (delete_runtime i m st)) = service_hosts st"
  using get_service_host_resolved [of st name h st'] get_service_host_cached [of st name h]
    get_service_host_failed [of name st e st'] create_service_cache [of cfg i m t events st url st'']
    delete_runtime_cache [of i m st]
  by blast

theorem host_cache_lifecycle_witness:
  "(service_hosts ex_uncached ''user--runtime--256mb'' = None \<and>
    get_service_host ''user--runtime--256mb'' ex_uncached
      = (Inr ''runtime.example.com'',
         ex_uncached\<lparr>service_hosts := [''user--runtime--256mb'' \<mapsto> ''runtime.example.com'']\<rparr>)) \<and>
   service_hosts ex_cached ''user--runtime--256mb'' = Some ''old.example.com'' \<and>
   get_service_host ''user--runtime--256mb'' ex_cached = (Inr ''old.example.com'', ex_cached) \<and>
   get_service_host ''user--runtime--256mb'' ex_empty = (Inl TypeError, ex_empty) \<and>
   create_service ex_config ''user/runtime'' 256 300 ex_ready_events ex_cached
     = (Returned ''http://new.example.com'',
        snd (create_service ex_config ''user/runtime'' 256 300 ex_ready_events ex_cached)) \<and>
   service_hosts (snd (create_service ex_config ''user/runtime'' 256 300 ex_ready_events ex_cached))
     = (service_hosts ex_cached)(format_service_name ''user/runtime'' 256 \<mapsto> drop 7 ''http://new.example.com'')"
proof -
  have h1: "service_hosts ex_uncached ''user--runtime--256mb'' = None \<and>
    get_service_host ''user--runtime--256mb'' ex_uncached
      = (Inr ''runtime.example.com'',
         ex_uncached\<lparr>service_hosts := [''user--runtime--256mb'' \<mapsto> ''runtime.example.com'']\<rparr>)"
    by (simp add: ex_uncached_def get_service_host_def api_get_def Let_def)
  have h2: "service_hosts ex_cached ''user--runtime--256mb'' = Some ''old.example.com''"
    by (simp add: ex_cached_def)
  have c2: "get_service_host ''user--runtime--256mb'' ex_cached = (Inr ''old.example.com'', ex_cached)"
    by (rule host_cache_lifecycle [where st = ex_cached and name = "''user--runtime--256mb''"
          and h = "''old.example.com''", THEN conjunct2, THEN conjunct1, THEN mp, OF h2])
  have h3: "get_service_host ''user--runtime--256mb'' ex_empty = (Inl TypeError, ex_empty)"
    by (simp add: ex_empty_def get_service_host_def api_get_def)
  have h4: "create_service ex_config ''user/runtime'' 256 300 ex_ready_events ex_cached
     = (Returned ''http://new.example.com'',
        snd (create_service ex_config ''user/runtime'' 256 300 ex_ready_events ex_cached))"
    by (simp add: create_service_def format_user_runtime api_delete_def api_create_def
        conditions_ready_def Let_def ex_cached_def ex_ready_events_def ex_config_def)
  have c4: "service_hosts (snd (create_service ex_config ''user/runtime'' 256 300 ex_ready_events ex_cached))
     = (service_hosts ex_cached)(format_service_name ''user/runtime'' 256 \<mapsto> drop 7 ''http://new.example.com'')"
    by (rule host_cache_lifecycle [where st = ex_cached and cfg = ex_config and i = "''user/runtime''"
          and m = 256 and t = 300 and events = ex_ready_events and url = "''http://new.example.com''"
          and st'' = "snd (create_service ex_config ''user/runtime'' 256 300 ex_ready_events ex_cached)",
          THEN conjunct2, THEN conjunct2, THEN conjunct2, THEN conjunct1, THEN mp, OF h4])
  show ?thesis using h1 h2 c2 h3 h4 c4 by blast
qed

text \<open>
  C6 as stated fails on deletion: after \<open>delete_runtime\<close> the service is gone from the
  cluster, its cache entry is still there, and a lookup answers with the stale host.
\<close>

theorem host_cache_lifecycle_counterexample:
  "services (snd (delete_runtime ''user/runtime'' 256 ex_cached)) = [] \<and>
   service_hosts (snd (delete_runtime ''user/runtime'' 256 ex_cached)) ''user--runtime--256mb''
     = Some ''old.example.com'' \<and>
   fst (get_service_host ''user--runtime--256mb'' (snd (delete_runtime ''user/runtime'' 256 ex_cached)))
     = Inr ''old.example.com''"
  by (simp add: delete_runtime_def format_user_runtime api_delete_def get_service_host_def
      ex_cached_def)

lemma run_build_creates_task_run:
  "build_setup bw = None \<Longrightarrow>
   CreateTaskRun (docker_repo cfg @ ''/'' @ d) rv \<in> set (snd (run_build cfg bw d rv acts))"
  by (simp add: run_build_def Let_def split: outcome.splits)

lemma run_build_no_query:
  "\<forall>x y. RegistryQuery x y \<notin> set acts \<Longrightarrow>
   RegistryQuery x y \<notin> set (snd (run_build cfg bw d rv acts))"
  by (auto simp: run_build_def Let_def split: option.splits outcome.splits)

lemma default_image_resolves:
  "(\<exists>d. get_default_runtime_image_name cfg = Inr d)
   \<longleftrightarrow> python_version cfg = ''3.5'' \<or> python_version cfg = ''3.6'' \<or> python_version cfg = ''3.7''"
  by (auto simp: get_default_runtime_image_name_def)

lemma create_runtime_unresolved:
  "get_default_runtime_image_name cfg = Inl e \<Longrightarrow>
   create_runtime cfg w img m t st = (Raised e, st, [])"
  by (simp add: create_runtime_def)

lemma create_runtime_sentinel:
  "get_default_runtime_image_name cfg = Inr d \<and> (img = ''default'' \<or> img = d) \<Longrightarrow>
   snd (snd (create_runtime cfg w img m t st)) = snd (build_docker_image_from_git cfg (build w) d)"
  by (auto simp: create_runtime_def Let_def split: outcome.splits prod.splits sum.splits)

lemma create_runtime_other:
  "get_default_runtime_image_name cfg = Inr d \<and> img \<noteq> ''default'' \<and> img \<noteq> d \<Longrightarrow>
   snd (snd (create_runtime cfg w img m t st)) = []"
  by (auto simp: create_runtime_def Let_def split: outcome.splits prod.splits sum.splits)

lemma build_skipped:
  "docker_repo cfg = ''docker.io'' \<and> revision_of (version cfg) \<noteq> ''latest'' \<and>
   registry bw = Inr 200 \<Longrightarrow>
   build_docker_image_from_git cfg bw d
     = (Returned (), [RegistryQuery d (revision_of (version cfg))])"
  by (simp add: build_docker_image_from_git_def Let_def)

lemma build_runs:
  assumes "(docker_repo cfg \<noteq> ''docker.io'' \<or> revision_of (version cfg) = ''latest'' \<or>
            (\<exists>c. registry bw = Inr c \<and> c \<noteq> 200)) \<and> build_setup bw = None"
  shows "CreateTaskRun (docker_repo cfg @ ''/'' @ d) (revision_of (version cfg))
           \<in> set (snd (build_docker_image_from_git cfg bw d))"
proof -
  have s: "build_setup bw = None" using assms by simp
  have "\<exists>acts. build_docker_image_from_git cfg bw d
                = run_build cfg bw d (revision_of (version cfg)) acts"
    using assms by (auto simp: build_docker_image_from_git_def Let_def)
  then obtain acts where "build_docker_image_from_git cfg bw d
                = run_build cfg bw d (revision_of (version cfg)) acts" ..
  then show ?thesis
    using run_build_creates_task_run [OF s, of cfg d "revision_of (version cfg)" acts]
    by (simp only:)
qed

lemma build_not_asked:
  assumes "docker_repo cfg \<noteq> ''docker.io'' \<or> revision_of (version cfg) = ''latest''"
  shows "build_docker_image_from_git cfg bw d = run_build cfg bw d (revision_of (version cfg)) [] \<and>
         (\<forall>x y. RegistryQuery x y \<notin> set (snd (build_docker_image_from_git cfg bw d)))"
proof -
  have eq: "build_docker_image_from_git cfg bw d = run_build cfg bw d (revision_of (version cfg)) []"
    using assms by (auto simp: build_docker_image_from_git_def Let_def)
  have "\<forall>x y. RegistryQuery x y \<notin> set (snd (run_build cfg bw d (revision_of (version cfg)) []))"
    using run_build_no_query [of "[]"] by simp
  then show ?thesis using eq by simp
qed

text \<open>
  C7 (as amended). The default image name resolves exactly on the interpreters 3.5, 3.6 and
  3.7; on any other, \<open>create_runtime\<close> raises before anything is built. When the name
  resolves and \<open>create_runtime\<close> is called with \<open>default\<close> or with that name, it runs
  \<open>_build_docker_image_from_git\<close> on the default image (its actions are those of the build);
  for any other image nothing of the build happens. In the build, the registry is asked only
  for the repository \<open>docker.io\<close> and a revision other than \<open>latest\<close>: when it is asked
  and answers 200, the function returns after the query and creates no task run; when it is
  asked and answers another status, or is not asked at all, and the build resources can be
  set up, the task run for the image and revision is created; when it is not asked, the
  actions of the build contain no registry query, whatever the registry holds.
\<close>

theorem create_runtime_builds_default:
  "((\<exists>d. get_default_runtime_image_name cfg = Inr d)
      \<longleftrightarrow> python_version cfg = ''3.5'' \<or> python_version cfg = ''3.6'' \<or> python_version cfg = ''3.7'') \<and>
   (get_default_runtime_image_name cfg = Inl e
      \<longrightarrow> create_runtime cfg w img m t st = (Raised e, st, [])) \<and>
   (get_default_runtime_image_name cfg = Inr d \<and> (img = ''default'' \<or> img = d)
      \<longrightarrow> snd (snd (create_runtime cfg w img m t st))
            = snd (build_docker_image_from_git cfg (build w) d)) \<and>
   (get_default_runtime_image_name cfg = Inr d \<and> img \<noteq> ''default'' \<and> img \<noteq> d
      \<longrightarrow> snd (snd (create_runtime cfg w img m t st)) = []) \<and>
   (docker_repo cfg = ''docker.io'' \<and> revision_of (version cfg) \<noteq> ''latest'' \<and>
    registry bw = Inr 200
      \<longrightarrow> build_docker_image_from_git cfg bw d
            = (Returned (), [RegistryQuery d (revision_of (version cfg))])) \<and>
   ((docker_repo cfg \<noteq> ''docker.io'' \<or> revision_of (version cfg) = ''latest'' \<or>
     (\<exists>c. registry bw = Inr c \<and> c \<noteq> 200)) \<and> build_setup bw = None
      \<longrightarrow> CreateTaskRun (docker_repo cfg @ ''/'' @ d) (revision_of (version cfg))
            \<in> set (snd (build_docker_image_from_git cfg bw d))) \<and>
   (docker_repo cfg \<noteq> ''docker.io'' \<or> revision_of (version cfg) = ''latest''
      \<longrightarrow> build_docker_image_from_git cfg bw d
            = run_build cfg bw d (revision_of (version cfg)) [] \<and>
          (\<forall>x y. RegistryQuery x y \<notin> set (snd (build_docker_image_from_git cfg bw d))))"
proof (intro conjI)
  show "(\<exists>d. get_default_runtime_image_name cfg = Inr d)
      \<longleftrightarrow> python_version cfg = ''3.5'' \<or> python_version cfg = ''3.6'' \<or> python_version cfg = ''3.7''"
    by (rule default_image_resolves)
  show "get_default_runtime_image_name cfg = Inl e
      \<longrightarrow> create_runtime cfg w img m t st = (Raised e, st, [])"
    by (intro impI) (rule create_runtime_unresolved)
  show "get_default_runtime_image_name cfg = Inr d \<and> (img = ''default'' \<or> img = d)
      \<longrightarrow> snd (snd (create_runtime cfg w img m t st))
            = snd (build_docker_image_from_git cfg (build w) d)"
    by (intro impI) (rule create_runtime_sentinel)
  show "get_default_runtime_image_name cfg = Inr d \<and> img \<noteq> ''default'' \<and> img \<noteq> d
      \<longrightarrow> snd (snd (create_runtime cfg w img m t st)) = []"
    by (intro impI) (rule create_runtime_other)
  show "docker_repo cfg = ''docker.io'' \<and> revision_of (version cfg) \<noteq> ''latest'' \<and>
    registry bw = Inr 200
      \<longrightarrow> build_docker_image_from_git cfg bw d
            = (Returned (), [RegistryQuery d (revision_of (version cfg))])"
    by (intro impI) (rule build_skipped)
  show "(docker_repo cfg \<noteq> ''docker.io'' \<or> revision_of (version cfg) = ''latest'' \<or>
     (\<exists>c. registry bw = Inr c \<and> c \<noteq> 200)) \<and> build_setup bw = None
      \<longrightarrow> CreateTaskRun (docker_repo cfg @ ''/'' @ d) (revision_of (version cfg))
            \<in> set (snd (build_docker_image_from_git cfg bw d))"
    by (intro impI) (rule build_runs)
  show "docker_repo cfg \<noteq> ''docker.io'' \<or> revision_of (version cfg) = ''latest''
      \<longrightarrow> build_docker_image_from_git cfg bw d
            = run_build cfg bw d (revision_of (version cfg)) [] \<and>
          (\<forall>x y. RegistryQuery x y \<notin> set (snd (build_docker_image_from_git cfg bw d)))"
    by (intro impI) (rule build_not_asked)
qed

lemma ex_default_image: "get_default_runtime_image_name ex_config = Inr ''user/runtime-v37''"
  by code_simp

lemma ex_revision: "revision_of (version ex_config) = ''1.0.0''"
  by code_simp

lemma ex_private_revision: "revision_of (version ex_config_private) = ''1.0.0''"
  by code_simp

theorem create_runtime_builds_default_witness:
  "python_version ex_config = ''3.7'' \<and>
   get_default_runtime_image_name ex_config = Inr ''user/runtime-v37'' \<and>
   get_default_runtime_image_name ex_config_py38 = Inl UnboundLocalError \<and>
   create_runtime ex_config_py38 ex_world_absent ''default'' 256 60 ex_empty
     = (Raised UnboundLocalError, ex_empty, []) \<and>
   snd (snd (create_runtime ex_config ex_world_absent ''default'' 256 60 ex_empty))
     = snd (build_docker_image_from_git ex_config (build ex_world_absent) ''user/runtime-v37'') \<and>
   (''user/runtime'' \<noteq> ''default'' \<and> ''user/runtime'' \<noteq> ''user/runtime-v37'') \<and>
   snd (snd (create_runtime ex_config ex_world_absent ''user/runtime'' 256 60 ex_empty)) = [] \<and>
   (docker_repo ex_config = ''docker.io'' \<and> revision_of (version ex_config) \<noteq> ''latest'' \<and>
    registry (build ex_world_present) = Inr 200) \<and>
   build_docker_image_from_git ex_config (build ex_world_present) ''user/runtime-v37''
     = (Returned (), [RegistryQuery ''user/runtime-v37'' (revision_of (version ex_config))]) \<and>
   (registry (build ex_world_absent) = Inr 404 \<and> build_setup (build ex_world_absent) = None) \<and>
   CreateTaskRun (docker_repo ex_config @ ''/'' @ ''user/runtime-v37'') (revision_of (version ex_config))
     \<in> set (snd (build_docker_image_from_git ex_config (build ex_world_absent) ''user/runtime-v37'')) \<and>
   docker_repo ex_config_private = ''us.icr.io'' \<and>
   build_docker_image_from_git ex_config_private ex_build_existing ''user/runtime-v37''
     = run_build ex_config_private ex_build_existing ''user/runtime-v37''
         (revision_of (version ex_config_private)) []"
proof -
  have p: "python_version ex_config = ''3.7''" by (simp add: ex_config_def)
  have h0: "get_default_runtime_image_name ex_config_py38 = Inl UnboundLocalError"
    by (simp add: get_default_runtime_image_name_def ex_config_py38_def ex_config_def)
  have c0: "create_runtime ex_config_py38 ex_world_absent ''default'' 256 60 ex_empty
     = (Raised UnboundLocalError, ex_empty, [])"
    by (rule create_runtime_builds_default [where cfg = ex_config_py38 and e = UnboundLocalError
          and w = ex_world_absent and img = "''default''" and m = 256 and t = 60 and st = ex_empty,
          THEN conjunct2, THEN conjunct1, THEN mp, OF h0])
  have h1: "get_default_runtime_image_name ex_config = Inr ''user/runtime-v37'' \<and>
            (''default'' = ''default'' \<or> ''default'' = ''user/runtime-v37'')"
    using ex_default_image by simp
  have c1: "snd (snd (create_runtime ex_config ex_world_absent ''default'' 256 60 ex_empty))
     = snd (build_docker_image_from_git ex_config (build ex_world_absent) ''user/runtime-v37'')"
    by (rule create_runtime_builds_default [where cfg = ex_config and d = "''user/runtime-v37''"
          and img = "''default''" and w = ex_world_absent and m = 256 and t = 60 and st = ex_empty,
          THEN conjunct2, THEN conjunct2, THEN conjunct1, THEN mp, OF h1])
  have n2: "''user/runtime'' \<noteq> ''default'' \<and> ''user/runtime'' \<noteq> ''user/runtime-v37''" by simp
  have h2: "get_default_runtime_image_name ex_config = Inr ''user/runtime-v37'' \<and>
            ''user/runtime'' \<noteq> ''default'' \<and> ''user/runtime'' \<noteq> ''user/runtime-v37''"
    using ex_default_image by simp
  have c2: "snd (snd (create_runtime ex_config ex_world_absent ''user/runtime'' 256 60 ex_empty)) = []"
    by (rule create_runtime_builds_default [where cfg = ex_config and d = "''user/runtime-v37''"
          and img = "''user/runtime''" and w = ex_world_absent and m = 256 and t = 60 and st = ex_empty,
          THEN conjunct2, THEN conjunct2, THEN conjunct2, THEN conjunct1, THEN mp, OF h2])
  have h3: "docker_repo ex_config = ''docker.io'' \<and> revision_of (version ex_config) \<noteq> ''latest'' \<and>
    registry (build ex_world_present) = Inr 200"
    by (simp add: ex_revision) (simp add: ex_config_def ex_world_present_def)
  have c3: "build_docker_image_from_git ex_config (build ex_world_present) ''user/runtime-v37''
     = (Returned (), [RegistryQuery ''user/runtime-v37'' (revision_of (version ex_config))])"
    by (rule create_runtime_builds_default [where cfg = ex_config and bw = "build ex_world_present"
          and d = "''user/runtime-v37''",
          THEN conjunct2, THEN conjunct2, THEN conjunct2, THEN conjunct2, THEN conjunct1, THEN mp,
          OF h3])
  have n4: "registry (build ex_world_absent) = Inr 404 \<and> build_setup (build ex_world_absent) = None"
    by (simp add: ex_world_absent_def)
  have h4: "(docker_repo ex_config \<noteq> ''docker.io'' \<or> revision_of (version ex_config) = ''latest'' \<or>
     (\<exists>c. registry (build ex_world_absent) = Inr c \<and> c \<noteq> 200)) \<and>
     build_setup (build ex_world_absent) = None"
    using n4 by simp
  have c4: "CreateTaskRun (docker_repo ex_config @ ''/'' @ ''user/runtime-v37'') (revision_of (version ex_config))
     \<in> set (snd (build_docker_image_from_git ex_config (build ex_world_absent) ''user/runtime-v37''))"
    by (rule create_runtime_builds_default [where cfg = ex_config and bw = "build ex_world_absent"
          and d = "''user/runtime-v37''",
          THEN conjunct2, THEN conjunct2, THEN conjunct2, THEN conjunct2, THEN conjunct2,
          THEN conjunct1, THEN mp, OF h4])
  have n5: "docker_repo ex_config_private = ''us.icr.io''"
    by (simp add: ex_config_private_def ex_config_def)
  have h5: "docker_repo ex_config_private \<noteq> ''docker.io'' \<or>
            revision_of (version ex_config_private) = ''latest''"
    using n5 by simp
  have c5: "build_docker_image_from_git ex_config_private ex_build_existing ''user/runtime-v37''
     = run_build ex_config_private ex_build_existing ''user/runtime-v37''
         (revision_of (version ex_config_private)) []"
    by (rule create_runtime_builds_default [where cfg = ex_config_private and bw = ex_build_existing
          and d = "''user/runtime-v37''",
          THEN conjunct2, THEN conjunct2, THEN conjunct2, THEN conjunct2, THEN conjunct2,
          THEN conjunct2, THEN mp, OF h5, THEN conjunct1])
  show ?thesis using p ex_default_image h0 c0 c1 n2 c2 h3 c3 n4 c4 n5 c5 by blast
qed

text \<open>
  C7 as stated fails in two ways. On an interpreter other than 3.5, 3.6 and 3.7 the call with
  the image \<open>default\<close> raises UnboundLocalError and nothing is built. With a repository
  other than \<open>docker.io\<close> the registry is never asked: the task run is created although the
  registry holds the image at the tag.
\<close>

theorem create_runtime_builds_default_counterexample:
  "create_runtime ex_config_py38 ex_world_absent ''default'' 256 60 ex_empty
     = (Raised UnboundLocalError, ex_empty, []) \<and>
   registry ex_build_existing = Inr 200 \<and>
   build_docker_image_from_git ex_config_private ex_build_existing ''user/runtime-v37''
     = (Returned (),
        [SetupBuildResources, DeleteTaskRun,
         CreateTaskRun ''us.icr.io/user/runtime-v37'' ''1.0.0'', DeleteTaskRun])"
proof -
  have a: "create_runtime ex_config_py38 ex_world_absent ''default'' 256 60 ex_empty
     = (Raised UnboundLocalError, ex_empty, [])"
    by (simp add: create_runtime_def get_default_runtime_image_name_def ex_config_py38_def
        ex_config_def)
  have b: "registry ex_build_existing = Inr 200" by (simp add: ex_build_existing_def)
  have r: "docker_repo ex_config_private = ''us.icr.io''"
    by (simp add: ex_config_private_def ex_config_def)
  have c: "build_docker_image_from_git ex_config_private ex_build_existing ''user/runtime-v37''
     = (Returned (),
        [SetupBuildResources, DeleteTaskRun,
         CreateTaskRun ''us.icr.io/user/runtime-v37'' ''1.0.0'', DeleteTaskRun])"
    by (simp add: build_docker_image_from_git_def Let_def r ex_private_revision run_build_def
        ex_build_existing_def)
  show ?thesis using a b c by blast
qed
section \<open>Claims about listing and deleting\<close>

lemma runtime_entry_listed:
  "runtime_entry n s =
   (case listed s of
      None \<Rightarrow> (if owned s then (case unformat_service_name (svc_name s) of Inl e \<Rightarrow> Inl e | Inr p \<Rightarrow> Inr None)
                else case svc_labels s of None \<Rightarrow> Inl KeyError
                     | Some l \<Rightarrow> (case map_of l ''type'' of None \<Rightarrow> Inl KeyError | Some t \<Rightarrow> Inr None))
    | Some p \<Rightarrow> if n = fst p \<or> n = ''all'' then Inr (Some p) else Inr None)"
  by (auto simp: runtime_entry_def listed_def owned_def decoded_def split: option.splits sum.splits prod.splits)

lemma list_loop_map_filter:
  "list_loop n svcs acc =
   acc @ filter (\<lambda>r. n = ''all'' \<or> fst r = n) (List.map_filter listed svcs)"
proof (induction svcs arbitrary: acc)
  case Nil
  then show ?case by (simp add: map_filter_simps)
next
  case (Cons s svcs)
  show ?case
  proof (cases "listed s")
    case None
    then have "list_loop n (s # svcs) acc = list_loop n svcs acc"
      by (auto simp: runtime_entry_listed split: option.splits sum.splits)
    then show ?thesis using None Cons.IH by (simp add: map_filter_simps)
  next
    case (Some p)
    show ?thesis
    proof (cases "n = fst p \<or> n = ''all''")
      case True
      then have "list_loop n (s # svcs) acc = list_loop n svcs (acc @ [p])"
        using Some by (simp add: runtime_entry_listed)
      then show ?thesis using Some True Cons.IH by (auto simp: map_filter_simps)
    next
      case False
      then have "list_loop n (s # svcs) acc = list_loop n svcs acc"
        using Some by (simp add: runtime_entry_listed)
      then show ?thesis using Some False Cons.IH by (auto simp: map_filter_simps)
    qed
  qed
qed

lemma set_map_filter: "set (List.map_filter f xs) = {y. \<exists>x \<in> set xs. f x = Some y}"
  by (induction xs) (auto simp: map_filter_simps split: option.splits)

lemma listed_Some: "listed s = Some p \<longleftrightarrow> owned s \<and> unformat_service_name (svc_name s) = Inr p"
  by (auto simp: listed_def decoded_def split: sum.splits)

lemma listed_formatted:
  assumes "owned s" and "svc_name s = format_service_name i m"
  shows "\<exists>p. listed s = Some p \<and> service_name_of p = svc_name s"
  using formatted_name_canonical [of i m] assms by (auto simp: listed_Some)

lemma listed_formatted_exact:
  assumes "owned s" and "svc_name s = format_service_name i m" and "image_shape i" and "0 \<le> m"
  shows "listed s = Some (i, m)"
proof -
  have "unformat_service_name (format_service_name i m) = Inr (i, m)"
    using unformat_format_image [OF assms(4), of i] decode_image [OF assms(3)] by simp
  then show ?thesis using assms(1, 2) by (simp add: listed_Some)
qed

lemma list_runtimes_all: "list_runtimes ''all'' st = List.map_filter listed (services st)"
  by (simp add: list_runtimes_def list_loop_map_filter)

lemma list_runtimes_filter:
  "list_runtimes img st = filter (\<lambda>r. img = ''all'' \<or> fst r = img) (list_runtimes ''all'' st)"
  unfolding list_runtimes_all by (simp add: list_runtimes_def list_loop_map_filter)

lemma list_runtimes_member:
  "s \<in> set (services st) \<Longrightarrow> listed s = Some p \<Longrightarrow>
   p \<in> set (list_runtimes ''all'' st) \<and> p \<in> set (list_runtimes (fst p) st)"
proof -
  assume "s \<in> set (services st)" "listed s = Some p"
  then have "p \<in> set (list_runtimes ''all'' st)"
    unfolding list_runtimes_all by (auto simp: set_map_filter)
  then show ?thesis using list_runtimes_filter [of "fst p" st] by simp
qed

lemma list_loop_skips:
  assumes "\<not> owned s \<or> (\<exists>e. unformat_service_name (svc_name s) = Inl e)"
  shows "list_loop img (s # rest) acc = list_loop img rest acc"
proof -
  have "listed s = None" using assms by (auto simp: listed_def decoded_def)
  then show ?thesis by (simp add: list_loop_map_filter map_filter_simps)
qed

text \<open>
  C9. \<open>list_runtimes('all')\<close> returns, in cluster order, the decoded pair of every service
  that carries the label \<open>type: pywren-runtime\<close> and whose name decodes, and nothing else:
  a pair is listed exactly when \<open>_unformat_service_name\<close> reads it from the name of some
  owned service. \<open>list_runtimes(image)\<close> returns those entries of that list whose image
  equals the filter. A service without the label or with a name that does not decode is passed
  over by the loop, and no exception leaves it. Every owned service whose name was made by
  \<open>_format_service_name\<close> is listed, with a pair that encodes to its name; when the image it
  was made for has the supported shape and the memory is not negative, the pair listed is that
  very image and memory, and \<open>list_runtimes\<close> of that image returns it.
\<close>

theorem list_runtimes_owned_decoded:
  "list_runtimes ''all'' st = List.map_filter listed (services st) \<and>
   list_runtimes img st = filter (\<lambda>r. img = ''all'' \<or> fst r = img) (list_runtimes ''all'' st) \<and>
   ((i, m) \<in> set (list_runtimes ''all'' st) \<longleftrightarrow>
      (\<exists>s \<in> set (services st). owned s \<and> unformat_service_name (svc_name s) = Inr (i, m))) \<and>
   (\<not> owned s \<or> (\<exists>e. unformat_service_name (svc_name s) = Inl e)
      \<longrightarrow> list_loop img (s # rest) acc = list_loop img rest acc) \<and>
   (s \<in> set (services st) \<and> owned s \<and> svc_name s = format_service_name j n
      \<longrightarrow> (\<exists>p \<in> set (list_runtimes ''all'' st). listed s = Some p \<and> service_name_of p = svc_name s)) \<and>
   (s \<in> set (services st) \<and> owned s \<and> svc_name s = format_service_name j n \<and>
    image_shape j \<and> 0 \<le> n
      \<longrightarrow> listed s = Some (j, n) \<and> (j, n) \<in> set (list_runtimes ''all'' st) \<and>
          (j, n) \<in> set (list_runtimes j st))"
proof (intro conjI)
  show "list_runtimes ''all'' st = List.map_filter listed (services st)"
    by (rule list_runtimes_all)
  show "list_runtimes img st = filter (\<lambda>r. img = ''all'' \<or> fst r = img) (list_runtimes ''all'' st)"
    by (rule list_runtimes_filter)
  show "(i, m) \<in> set (list_runtimes ''all'' st) \<longleftrightarrow>
      (\<exists>s \<in> set (services st). owned s \<and> unformat_service_name (svc_name s) = Inr (i, m))"
    unfolding list_runtimes_all by (simp add: set_map_filter listed_Some)
  show "\<not> owned s \<or> (\<exists>e. unformat_service_name (svc_name s) = Inl e)
      \<longrightarrow> list_loop img (s # rest) acc = list_loop img rest acc"
    by (intro impI) (rule list_loop_skips)
  show "s \<in> set (services st) \<and> owned s \<and> svc_name s = format_service_name j n
      \<longrightarrow> (\<exists>p \<in> set (list_runtimes ''all'' st). listed s = Some p \<and> service_name_of p = svc_name s)"
  proof (intro impI)
    assume a: "s \<in> set (services st) \<and> owned s \<and> svc_name s = format_service_name j n"
    then obtain p where p: "listed s = Some p" "service_name_of p = svc_name s"
      using listed_formatted [of s j n] by blast
    then have "p \<in> set (list_runtimes ''all'' st)" using a list_runtimes_member by blast
    then show "\<exists>p \<in> set (list_runtimes ''all'' st). listed s = Some p \<and> service_name_of p = svc_name s"
      using p by blast
  qed
  show "s \<in> set (services st) \<and> owned s \<and> svc_name s = format_service_name j n \<and>
    image_shape j \<and> 0 \<le> n
      \<longrightarrow> listed s = Some (j, n) \<and> (j, n) \<in> set (list_runtimes ''all'' st) \<and>
          (j, n) \<in> set (list_runtimes j st)"
  proof (intro impI)
    assume a: "s \<in> set (services st) \<and> owned s \<and> svc_name s = format_service_name j n \<and>
      image_shape j \<and> 0 \<le> n"
    then have l: "listed s = Some (j, n)" using listed_formatted_exact [of s j n] by blast
    then show "listed s = Some (j, n) \<and> (j, n) \<in> set (list_runtimes ''all'' st) \<and>
          (j, n) \<in> set (list_runtimes j st)"
      using a list_runtimes_member [of s st "(j, n)"] by simp
  qed
qed

theorem list_runtimes_owned_decoded_witness:
  "list_runtimes ''all'' ex_cluster = [(''user/runtime'', 256), (''org/team:runtime'', 512)] \<and>
   list_runtimes ''user/runtime'' ex_cluster = [(''user/runtime'', 256)] \<and>
   list_runtimes ''org/team/runtime'' ex_cluster = [] \<and>
   \<lparr>svc_name = ''user--runtime--256mb'', svc_labels = Some [(''type'', ''pywren-runtime'')],
     svc_url = Some ''http://runtime.example.com''\<rparr> \<in> set (services ex_cluster) \<and>
   owned \<lparr>svc_name = ''user--runtime--256mb'', svc_labels = Some [(''type'', ''pywren-runtime'')],
           svc_url = Some ''http://runtime.example.com''\<rparr> \<and>
   format_service_name ''user/runtime'' 256 = ''user--runtime--256mb'' \<and>
   image_shape ''user/runtime'' \<and>
   listed \<lparr>svc_name = ''user--runtime--256mb'', svc_labels = Some [(''type'', ''pywren-runtime'')],
            svc_url = Some ''http://runtime.example.com''\<rparr> = Some (''user/runtime'', 256) \<and>
   (''user/runtime'', 256) \<in> set (list_runtimes ''all'' ex_cluster) \<and>
   (''user/runtime'', 256) \<in> set (list_runtimes ''user/runtime'' ex_cluster) \<and>
   \<not> owned \<lparr>svc_name = ''frontend'', svc_labels = Some [(''app'', ''web'')], svc_url = None\<rparr> \<and>
   unformat_service_name ''notaruntime'' = Inl ValueError \<and>
   format_service_name ''org/team/runtime'' 512 = ''org--team--runtime--512mb''"
proof -
  let ?s = "\<lparr>svc_name = ''user--runtime--256mb'', svc_labels = Some [(''type'', ''pywren-runtime'')],
             svc_url = Some ''http://runtime.example.com''\<rparr>"
  have l1: "list_runtimes ''all'' ex_cluster = [(''user/runtime'', 256), (''org/team:runtime'', 512)]"
    unfolding ex_cluster_def by code_simp
  have l2: "list_runtimes ''user/runtime'' ex_cluster = [(''user/runtime'', 256)]"
    unfolding list_runtimes_owned_decoded [where img = "''user/runtime''" and st = ex_cluster,
        THEN conjunct2, THEN conjunct1] l1
    by simp
  have l3: "list_runtimes ''org/team/runtime'' ex_cluster = []"
    unfolding list_runtimes_owned_decoded [where img = "''org/team/runtime''" and st = ex_cluster,
        THEN conjunct2, THEN conjunct1] l1
    by simp
  have mem: "?s \<in> set (services ex_cluster)" by (simp add: ex_cluster_def)
  have own: "owned ?s" by (simp add: owned_def)
  have shape: "image_shape ''user/runtime''" by (simp add: image_shape_def separators_def)
  have h: "?s \<in> set (services ex_cluster) \<and> owned ?s \<and>
           svc_name ?s = format_service_name ''user/runtime'' 256 \<and>
           image_shape ''user/runtime'' \<and> (0::int) \<le> 256"
    using mem own shape by (simp add: format_user_runtime)
  have c: "listed ?s = Some (''user/runtime'', 256) \<and>
           (''user/runtime'', 256) \<in> set (list_runtimes ''all'' ex_cluster) \<and>
           (''user/runtime'', 256) \<in> set (list_runtimes ''user/runtime'' ex_cluster)"
    by (rule list_runtimes_owned_decoded [where st = ex_cluster and s = ?s and j = "''user/runtime''"
          and n = 256, THEN conjunct2, THEN conjunct2, THEN conjunct2, THEN conjunct2,
          THEN conjunct2, THEN mp, OF h])
  have no: "\<not> owned \<lparr>svc_name = ''frontend'', svc_labels = Some [(''app'', ''web'')], svc_url = None\<rparr>"
    by (simp add: owned_def)
  have bad: "unformat_service_name ''notaruntime'' = Inl ValueError" by code_simp
  have org: "format_service_name ''org/team/runtime'' 512 = ''org--team--runtime--512mb''"
    by code_simp
  show ?thesis using l1 l2 l3 mem own format_user_runtime shape c no bad org by blast
qed

lemma delete_runtime_services:
  "delete_runtime i m st =
   (Inr (), st\<lparr>services := filter (\<lambda>s. svc_name s \<noteq> format_service_name i m) (services st)\<rparr>)"
proof (cases "format_service_name i m \<in> set (map svc_name (services st))")
  case True
  then show ?thesis by (simp add: delete_runtime_def api_delete_def)
next
  case False
  then have "filter (\<lambda>s. svc_name s \<noteq> format_service_name i m) (services st) = services st"
    unfolding filter_id_conv by (metis image_eqI set_map)
  then show ?thesis using False by (simp add: delete_runtime_def api_delete_def)
qed

lemma delete_loop_services:
  "delete_loop rs st =
   (Inr (), st\<lparr>services := filter (\<lambda>s. svc_name s \<notin> service_name_of ` set rs) (services st)\<rparr>)"
proof (induction rs arbitrary: st)
  case Nil
  then show ?case by simp
next
  case (Cons r rs)
  obtain i m where r: "r = (i, m)" by (cases r)
  have "(\<lambda>s. svc_name s \<notin> service_name_of ` set rs \<and> svc_name s \<noteq> format_service_name i m)
        = (\<lambda>s. svc_name s \<noteq> service_name_of (i, m) \<and> svc_name s \<notin> service_name_of ` set rs)"
    by (auto simp: service_name_of_def)
  then show ?case unfolding r by (simp add: delete_runtime_services Cons.IH service_name_of_def)
qed

lemma map_filter_filter_subset:
  "set (List.map_filter f (filter P xs)) \<subseteq> set (List.map_filter f xs)"
  by (auto simp: set_map_filter)

lemma delete_all_twice:
  "snd (delete_all_runtimes (snd (delete_all_runtimes st))) = snd (delete_all_runtimes st)"
proof -
  define T where "T = service_name_of ` set (List.map_filter listed (services st))"
  define svcs' where "svcs' = filter (\<lambda>s. svc_name s \<notin> T) (services st)"
  define T' where "T' = service_name_of ` set (List.map_filter listed svcs')"
  have first: "snd (delete_all_runtimes st) = st\<lparr>services := svcs'\<rparr>"
    by (simp add: delete_all_runtimes_def delete_loop_services list_runtimes_def
        list_loop_map_filter T_def svcs'_def)
  have sub: "T' \<subseteq> T" unfolding T'_def T_def svcs'_def
    using map_filter_filter_subset [of listed _ "services st"] by blast
  have "\<forall>s \<in> set svcs'. svc_name s \<notin> T'"
    using sub unfolding svcs'_def by auto
  then have "filter (\<lambda>s. svc_name s \<notin> T') svcs' = svcs'"
    unfolding filter_id_conv .
  then have "snd (delete_all_runtimes (st\<lparr>services := svcs'\<rparr>)) = st\<lparr>services := svcs'\<rparr>"
    by (simp add: delete_all_runtimes_def delete_loop_services list_runtimes_def
        list_loop_map_filter T'_def)
  then show ?thesis using first by simp
qed

text \<open>
  C8. \<open>delete_runtime\<close> never surfaces an error; on a service that is already absent it
  returns normally and leaves the state as it was, and a second call after a first changes
  nothing. \<open>delete_all_runtimes\<close> returns normally as well, and running it again on its
  own result changes nothing.
\<close>

theorem delete_idempotent:
  "fst (delete_runtime i m st) = Inr () \<and>
   (format_service_name i m \<notin> set (map svc_name (services st))
      \<longrightarrow> delete_runtime i m st = (Inr (), st)) \<and>
   delete_runtime i m (snd (delete_runtime i m st)) = (Inr (), snd (delete_runtime i m st)) \<and>
   fst (delete_all_runtimes st) = Inr () \<and>
   delete_all_runtimes (snd (delete_all_runtimes st)) = (Inr (), snd (delete_all_runtimes st))"
proof (intro conjI impI)
  show "fst (delete_runtime i m st) = Inr ()" by (simp add: delete_runtime_services)
  show "delete_runtime i m st = (Inr (), st)"
    if "format_service_name i m \<notin> set (map svc_name (services st))"
    using that by (simp add: delete_runtime_def api_delete_def)
  show "delete_runtime i m (snd (delete_runtime i m st)) = (Inr (), snd (delete_runtime i m st))"
    by (simp add: delete_runtime_services)
  show all: "fst (delete_all_runtimes st) = Inr ()"
    by (simp add: delete_all_runtimes_def delete_loop_services)
  have "fst (delete_all_runtimes (snd (delete_all_runtimes st))) = Inr ()"
    by (simp add: delete_all_runtimes_def delete_loop_services)
  then show "delete_all_runtimes (snd (delete_all_runtimes st)) = (Inr (), snd (delete_all_runtimes st))"
    using delete_all_twice [of st] by (simp add: prod_eq_iff)
qed

lemma delete_all_runtimes_services:
  "snd (delete_all_runtimes st) =
     st\<lparr>services := filter (\<lambda>s. svc_name s \<notin> service_name_of ` set (list_runtimes ''all'' st))
                        (services st)\<rparr> \<and>
   (distinct (map svc_name (services st)) \<and>
    (\<forall>s \<in> set (services st). \<forall>p. listed s = Some p \<longrightarrow> service_name_of p = svc_name s)
    \<longrightarrow> services (snd (delete_all_runtimes st)) = filter (\<lambda>s. listed s = None) (services st))"
proof (intro conjI impI)
  show a: "snd (delete_all_runtimes st) =
     st\<lparr>services := filter (\<lambda>s. svc_name s \<notin> service_name_of ` set (list_runtimes ''all'' st))
                        (services st)\<rparr>"
    by (simp add: delete_all_runtimes_def delete_loop_services)
  assume h: "distinct (map svc_name (services st)) \<and>
    (\<forall>s \<in> set (services st). \<forall>p. listed s = Some p \<longrightarrow> service_name_of p = svc_name s)"
  have "\<And>s. s \<in> set (services st) \<Longrightarrow>
          (svc_name s \<notin> service_name_of ` set (list_runtimes ''all'' st)) = (listed s = None)"
  proof -
    fix s assume s: "s \<in> set (services st)"
    show "(svc_name s \<notin> service_name_of ` set (list_runtimes ''all'' st)) = (listed s = None)"
    proof
      assume n: "svc_name s \<notin> service_name_of ` set (list_runtimes ''all'' st)"
      show "listed s = None"
      proof (rule ccontr)
        assume "listed s \<noteq> None"
        then obtain p where p: "listed s = Some p" by auto
        then have "p \<in> set (list_runtimes ''all'' st)"
          using s by (auto simp: list_runtimes_def list_loop_map_filter set_map_filter)
        moreover have "service_name_of p = svc_name s" using h s p by blast
        ultimately show False using n by force
      qed
    next
      assume l: "listed s = None"
      show "svc_name s \<notin> service_name_of ` set (list_runtimes ''all'' st)"
      proof
        assume "svc_name s \<in> service_name_of ` set (list_runtimes ''all'' st)"
        then obtain p s' where p: "svc_name s = service_name_of p" "s' \<in> set (services st)" "listed s' = Some p"
          by (auto simp: list_runtimes_def list_loop_map_filter set_map_filter)
        then have "svc_name s' = svc_name s" using h by force
        then have "s' = s" using h s p(2) by (meson distinct_map inj_onD)
        then show False using l p(3) by simp
      qed
    qed
  qed
  then have "filter (\<lambda>s. svc_name s \<notin> service_name_of ` set (list_runtimes ''all'' st)) (services st)
             = filter (\<lambda>s. listed s = None) (services st)"
    by (intro filter_cong) simp_all
  then show "services (snd (delete_all_runtimes st)) = filter (\<lambda>s. listed s = None) (services st)"
    unfolding a by simp
qed

theorem delete_idempotent_witness:
  "format_service_name ''user/runtime'' 256
     \<notin> set (map svc_name (services
         \<lparr>service_hosts = Map.empty, endpoint = None, host_header = None,
          services = [\<lparr>svc_name = ''other--128mb'', svc_labels = None, svc_url = None\<rparr>]\<rparr>)) \<and>
   delete_runtime ''user/runtime'' 256
     \<lparr>service_hosts = Map.empty, endpoint = None, host_header = None,
      services = [\<lparr>svc_name = ''other--128mb'', svc_labels = None, svc_url = None\<rparr>]\<rparr>
   = (Inr (),
      \<lparr>service_hosts = Map.empty, endpoint = None, host_header = None,
       services = [\<lparr>svc_name = ''other--128mb'', svc_labels = None, svc_url = None\<rparr>]\<rparr>)"
proof -
  have f: "format_service_name ''user/runtime'' 256 = ''user--runtime--256mb''" by code_simp
  show ?thesis
    using delete_idempotent [of "''user/runtime''" 256
      "\<lparr>service_hosts = Map.empty, endpoint = None, host_header = None,
        services = [\<lparr>svc_name = ''other--128mb'', svc_labels = None, svc_url = None\<rparr>]\<rparr>"]
    by (simp add: f)
qed

text \<open>
  C10 (as amended). \<open>delete_all_runtimes\<close> calls \<open>delete_runtime\<close> for the pairs of
  \<open>list_runtimes('all')\<close>: it removes exactly the services whose name is the encoding of a
  listed pair, and changes nothing else of the state. When service names are distinct and every
  owned service that decodes is named by the encoding of its own decoded pair, the services
  removed are exactly the owned services that decode. In particular, when names are distinct
  and every owned service carries a name made by \<open>_format_service_name\<close>, the services
  removed are exactly the owned ones, and every other service stays.
\<close>

theorem delete_all_runtimes_frame:
  "snd (delete_all_runtimes st) =
     st\<lparr>services := filter (\<lambda>s. svc_name s \<notin> service_name_of ` set (list_runtimes ''all'' st))
                        (services st)\<rparr> \<and>
   (distinct (map svc_name (services st)) \<and>
    (\<forall>s \<in> set (services st). \<forall>p. listed s = Some p \<longrightarrow> service_name_of p = svc_name s)
    \<longrightarrow> services (snd (delete_all_runtimes st)) = filter (\<lambda>s. listed s = None) (services st)) \<and>
   (distinct (map svc_name (services st)) \<and>
    (\<forall>s \<in> set (services st). owned s \<longrightarrow> (\<exists>i m. svc_name s = format_service_name i m))
    \<longrightarrow> services (snd (delete_all_runtimes st)) = filter (\<lambda>s. \<not> owned s) (services st))"
proof (intro conjI impI)
  show "snd (delete_all_runtimes st) =
     st\<lparr>services := filter (\<lambda>s. svc_name s \<notin> service_name_of ` set (list_runtimes ''all'' st))
                        (services st)\<rparr>"
    using delete_all_runtimes_services [of st] by (rule conjunct1)
next
  assume "distinct (map svc_name (services st)) \<and>
    (\<forall>s \<in> set (services st). \<forall>p. listed s = Some p \<longrightarrow> service_name_of p = svc_name s)"
  then show "services (snd (delete_all_runtimes st)) = filter (\<lambda>s. listed s = None) (services st)"
    using delete_all_runtimes_services [of st] by blast
next
  assume h: "distinct (map svc_name (services st)) \<and>
    (\<forall>s \<in> set (services st). owned s \<longrightarrow> (\<exists>i m. svc_name s = format_service_name i m))"
  have can: "\<forall>s \<in> set (services st). \<forall>p. listed s = Some p \<longrightarrow> service_name_of p = svc_name s"
  proof (intro ballI allI impI)
    fix s p assume s: "s \<in> set (services st)" and p: "listed s = Some p"
    then have "owned s" by (simp add: listed_Some)
    then obtain i m where nm: "svc_name s = format_service_name i m" using h s by blast
    obtain q where "listed s = Some q" "service_name_of q = svc_name s"
      using listed_formatted [OF \<open>owned s\<close> nm] by blast
    then show "service_name_of p = svc_name s" using p by simp
  qed
  have "\<And>s. s \<in> set (services st) \<Longrightarrow> (listed s = None) = (\<not> owned s)"
  proof -
    fix s assume s: "s \<in> set (services st)"
    show "(listed s = None) = (\<not> owned s)"
    proof (cases "owned s")
      case True
      then obtain i m where nm: "svc_name s = format_service_name i m" using h s by blast
      obtain q where "listed s = Some q" using listed_formatted [OF True nm] by blast
      then show ?thesis using True by simp
    next
      case False
      then show ?thesis by (simp add: listed_def)
    qed
  qed
  then have eq: "filter (\<lambda>s. listed s = None) (services st) = filter (\<lambda>s. \<not> owned s) (services st)"
    by (intro filter_cong) simp_all
  have "distinct (map svc_name (services st)) \<and>
    (\<forall>s \<in> set (services st). \<forall>p. listed s = Some p \<longrightarrow> service_name_of p = svc_name s)"
    using h can by blast
  then have "services (snd (delete_all_runtimes st)) = filter (\<lambda>s. listed s = None) (services st)"
    by (rule delete_all_runtimes_services [of st, THEN conjunct2, THEN mp])
  then show "services (snd (delete_all_runtimes st)) = filter (\<lambda>s. \<not> owned s) (services st)"
    unfolding eq .
qed

theorem delete_all_runtimes_frame_witness:
  "distinct (map svc_name
     [\<lparr>svc_name = ''user--runtime--256mb'', svc_labels = Some [(''type'', ''pywren-runtime'')], svc_url = None\<rparr>,
      \<lparr>svc_name = ''frontend'', svc_labels = Some [(''app'', ''web'')], svc_url = None\<rparr>]) \<and>
   listed \<lparr>svc_name = ''user--runtime--256mb'', svc_labels = Some [(''type'', ''pywren-runtime'')], svc_url = None\<rparr>
     = Some (''user/runtime'', 256) \<and>
   service_name_of (''user/runtime'', 256) = ''user--runtime--256mb'' \<and>
   listed \<lparr>svc_name = ''frontend'', svc_labels = Some [(''app'', ''web'')], svc_url = None\<rparr> = None \<and>
   ''user--runtime--256mb'' = format_service_name ''user/runtime'' 256 \<and>
   \<not> owned \<lparr>svc_name = ''frontend'', svc_labels = Some [(''app'', ''web'')], svc_url = None\<rparr> \<and>
   services (snd (delete_all_runtimes
     \<lparr>service_hosts = Map.empty, endpoint = None, host_header = None,
      services =
       [\<lparr>svc_name = ''user--runtime--256mb'', svc_labels = Some [(''type'', ''pywren-runtime'')], svc_url = None\<rparr>,
        \<lparr>svc_name = ''frontend'', svc_labels = Some [(''app'', ''web'')], svc_url = None\<rparr>]\<rparr>))
   = [\<lparr>svc_name = ''frontend'', svc_labels = Some [(''app'', ''web'')], svc_url = None\<rparr>]"
proof -
  have a: "listed \<lparr>svc_name = ''user--runtime--256mb'',
                   svc_labels = Some [(''type'', ''pywren-runtime'')], svc_url = None\<rparr>
           = Some (''user/runtime'', 256)" by code_simp
  have b: "listed \<lparr>svc_name = ''frontend'', svc_labels = Some [(''app'', ''web'')], svc_url = None\<rparr>
           = None" by code_simp
  have c: "service_name_of (''user/runtime'', 256) = ''user--runtime--256mb''" by code_simp
  have d: "format_service_name ''user/runtime'' 256 = ''user--runtime--256mb''" by code_simp
  have e: "\<not> owned \<lparr>svc_name = ''frontend'', svc_labels = Some [(''app'', ''web'')], svc_url = None\<rparr>"
    by code_simp
  show ?thesis
    using delete_all_runtimes_frame [of
      "\<lparr>service_hosts = Map.empty, endpoint = None, host_header = None,
        services =
         [\<lparr>svc_name = ''user--runtime--256mb'', svc_labels = Some [(''type'', ''pywren-runtime'')], svc_url = None\<rparr>,
          \<lparr>svc_name = ''frontend'', svc_labels = Some [(''app'', ''web'')], svc_url = None\<rparr>]\<rparr>",
      THEN conjunct2, THEN conjunct1]
    by (simp add: a b c d e)
qed

text \<open>
  C10 as stated fails when an owned service has a name that is not the encoding of its decoded
  pair: \<open>img--0256mb\<close> decodes to \<open>(img, 256)\<close>, whose encoding \<open>img--256mb\<close> names
  another service; that one, which does not carry the label, is deleted, and the owned one
  stays.
\<close>

theorem delete_all_runtimes_frame_counterexample:
  "owned \<lparr>svc_name = ''img--0256mb'', svc_labels = Some [(''type'', ''pywren-runtime'')], svc_url = None\<rparr> \<and>
   \<not> owned \<lparr>svc_name = ''img--256mb'', svc_labels = Some [(''app'', ''web'')], svc_url = None\<rparr> \<and>
   list_runtimes ''all''
     \<lparr>service_hosts = Map.empty, endpoint = None, host_header = None,
      services =
       [\<lparr>svc_name = ''img--0256mb'', svc_labels = Some [(''type'', ''pywren-runtime'')], svc_url = None\<rparr>,
        \<lparr>svc_name = ''img--256mb'', svc_labels = Some [(''app'', ''web'')], svc_url = None\<rparr>]\<rparr>
     = [(''img'', 256)] \<and>
   services (snd (delete_all_runtimes
     \<lparr>service_hosts = Map.empty, endpoint = None, host_header = None,
      services =
       [\<lparr>svc_name = ''img--0256mb'', svc_labels = Some [(''type'', ''pywren-runtime'')], svc_url = None\<rparr>,
        \<lparr>svc_name = ''img--256mb'', svc_labels = Some [(''app'', ''web'')], svc_url = None\<rparr>]\<rparr>))
   = [\<lparr>svc_name = ''img--0256mb'', svc_labels = Some [(''type'', ''pywren-runtime'')], svc_url = None\<rparr>]"
  by code_simp

end
